theory Spec2Isabelle
  imports Complex_Main "HOL-Library.AList"
begin

section \<open>Errors and warnings\<close>

text \<open>
  Every exception the modelled Python code can raise is a value of \<open>error\<close>; a function
  that can raise returns \<open>error + 'a\<close> with \<open>Inl\<close> the exception.  \<open>Unmodelled\<close> is no
  exception: Python goes on there with a value this model has no type for (a complex
  number, a NaN cell, a frame where a Series is expected), and the model stops.  A warning
  is not an exception either: a function that warns returns the list of warnings it
  emitted next to its result.
\<close>

datatype error =
    KeyError string
  | IndexError
  | ValueError
  | TypeError
  | UndefinedVariableError string
  | Unmodelled

datatype warning = ColumnsNotSaved "string set" string

definition bind_err :: "error + 'a \<Rightarrow> ('a \<Rightarrow> error + 'b) \<Rightarrow> error + 'b" where
  "bind_err r f = (case r of Inl e \<Rightarrow> Inl e | Inr x \<Rightarrow> f x)"

section \<open>tyssue/core/history.py\<close>

subsection \<open>The pandas operations the module uses\<close>

text \<open>
  A DataFrame is its index (one label per row) and its columns in order, each a name and
  one value per row.  Column names may repeat, as in pandas.  All cells are numbers.
\<close>

record dataframe =
  index :: "real list"
  columns :: "(string \<times> real list) list"

definition column_names :: "dataframe \<Rightarrow> string list" where
  "column_names df = map fst (columns df)"

text \<open>\<open>df[cols]\<close> with a list of names: every column carrying a requested name, in the
  order of the request; KeyError when a requested name is no column.\<close>

definition select_columns :: "dataframe \<Rightarrow> string list \<Rightarrow> error + dataframe" where
  "select_columns df cols =
     (case filter (\<lambda>c. c \<notin> set (column_names df)) cols of
        c # _ \<Rightarrow> Inl (KeyError c)
      | [] \<Rightarrow> Inr (df\<lparr>columns := concat (map (\<lambda>c. filter (\<lambda>nv. fst nv = c) (columns df)) cols)\<rparr>))"

text \<open>\<open>df.reset_index(drop=False)\<close>: the index becomes the first column, under the
  index's name, and the rows are numbered from 0.  The index of a sheet's table is named
  after its element (\<open>vert\<close>, \<open>face\<close>, \<open>edge\<close>, \<open>cell\<close>); pandas raises ValueError when a
  column of that name is already there.\<close>

definition reset_index :: "string \<Rightarrow> dataframe \<Rightarrow> error + dataframe" where
  "reset_index element df =
     (if element \<in> set (column_names df) then Inl ValueError
      else Inr \<lparr>index = map real [0..<length (index df)],
                columns = (element, index df) # columns df\<rparr>)"

text \<open>\<open>df[name] = v\<close> with a scalar: every column of that name is overwritten, or a new
  last column is added.\<close>

definition assign_const :: "dataframe \<Rightarrow> string \<Rightarrow> real \<Rightarrow> dataframe" where
  "assign_const df name v =
     (let new = replicate (length (index df)) v in
      if name \<in> set (column_names df)
      then df\<lparr>columns := map (\<lambda>nv. if fst nv = name then (name, new) else nv) (columns df)\<rparr>
      else df\<lparr>columns := columns df @ [(name, new)]\<rparr>)"

text \<open>\<open>pd.concat([hist, df], ignore_index=True, axis=0, sort=False)\<close>: for two frames
  with the same column names in the same order, the rows of the second below the rows of
  the first, renumbered.  With different columns pandas fills the gaps with NaN.\<close>

definition concat_rows :: "dataframe \<Rightarrow> dataframe \<Rightarrow> error + dataframe" where
  "concat_rows a b =
     (if column_names a = column_names b
      then Inr \<lparr>index = map real [0..<length (index a) + length (index b)],
                columns = map (\<lambda>(na, nb). (fst na, snd na @ snd nb)) (zip (columns a) (columns b))\<rparr>
      else Inl Unmodelled)"

text \<open>\<open>df[mask]\<close> with a boolean mask: the rows where the mask holds, labels kept.\<close>

definition keep :: "bool list \<Rightarrow> 'a list \<Rightarrow> 'a list" where
  "keep msk xs = map snd (filter fst (zip msk xs))"

definition select_rows :: "dataframe \<Rightarrow> bool list \<Rightarrow> dataframe" where
  "select_rows df msk =
     \<lparr>index = keep msk (index df),
      columns = map (\<lambda>nv. (fst nv, keep msk (snd nv))) (columns df)\<rparr>"

text \<open>\<open>df[name]\<close> with one name: the column, KeyError when there is none; a name that
  several columns carry gives a frame, not a Series.\<close>

definition get_column :: "dataframe \<Rightarrow> string \<Rightarrow> error + real list" where
  "get_column df name =
     (case filter (\<lambda>nv. fst nv = name) (columns df) of
        [] \<Rightarrow> Inl (KeyError name)
      | [nv] \<Rightarrow> Inr (snd nv)
      | _ \<Rightarrow> Inl Unmodelled)"

text \<open>\<open>df.set_index(name)\<close>: the column leaves the columns and becomes the index.\<close>

definition set_index :: "dataframe \<Rightarrow> string \<Rightarrow> error + dataframe" where
  "set_index df name =
     bind_err (get_column df name) (\<lambda>v.
       Inr \<lparr>index = v, columns = filter (\<lambda>nv. fst nv \<noteq> name) (columns df)\<rparr>)"

subsection \<open>\<open>_filter_columns\<close>\<close>

text \<open>
  \<open>list(set(cols_hist).intersection(cols_in))\<close> lists the common names once each, in an
  order Python does not fix; the model lists them in the order of their first request.
\<close>

definition filter_columns :: "string list \<Rightarrow> string list \<Rightarrow> string \<Rightarrow> string list \<times> warning list" where
  "filter_columns cols_hist cols_in element =
     (if \<not> set cols_hist \<subseteq> set cols_in
      then (remdups (filter (\<lambda>c. c \<in> set cols_in) cols_hist),
            [ColumnsNotSaved (set cols_hist - set cols_in) element])
      else (cols_hist, []))"

subsection \<open>The History class\<close>

text \<open>
  The sheet as history.py reads it (sheet.py is not among the sources): its coordinate
  names, its tables, of which \<open>cell_df\<close> may be None, and \<open>sheet.datasets\<close>, the
  dictionary of the same tables under their element names.
\<close>

record sheet_data =
  coords :: "string list"
  vert_data :: dataframe
  face_data :: dataframe
  cell_data :: "dataframe option"
  edge_data :: dataframe

definition sheet_datasets :: "sheet_data \<Rightarrow> string \<Rightarrow> error + dataframe" where
  "sheet_datasets sheet element =
     (if element = ''vert'' then Inr (vert_data sheet)
      else if element = ''face'' then Inr (face_data sheet)
      else if element = ''edge'' then Inr (edge_data sheet)
      else if element = ''cell'' then
        (case cell_data sheet of None \<Rightarrow> Inl (KeyError element) | Some df \<Rightarrow> Inr df)
      else Inl (KeyError element))"

record history =
  time_id :: nat
  datasets :: "(string \<times> dataframe) list"
  hist_columns :: "(string \<times> string list) list"
  time_index :: "nat list"
  time_stamps :: "real list"

text \<open>\<open>extra_cols\<close>: None, or a dictionary that \<open>defaultdict(list, **extra_cols)\<close>
  completes with the empty list.\<close>

definition extra :: "(string \<times> string list) list option \<Rightarrow> string \<Rightarrow> string list" where
  "extra extra_cols k =
     (case extra_cols of None \<Rightarrow> []
      | Some d \<Rightarrow> (case map_of d k of None \<Rightarrow> [] | Some v \<Rightarrow> v))"

text \<open>The four lines \<open>__init__\<close> repeats for each table: filter the requested columns,
  take them from the table, move the index into a column, and add \<open>time_id = 0\<close> unless
  \<open>time_id\<close> is itself a recorded column.\<close>

definition snapshot0 ::
  "string list \<Rightarrow> dataframe \<Rightarrow> string \<Rightarrow> string \<Rightarrow> error + (string list \<times> dataframe \<times> warning list)" where
  "snapshot0 cols df name element =
     (let (fcols, ws) = filter_columns cols (column_names df) name in
      bind_err (select_columns df fcols) (\<lambda>sel.
      bind_err (reset_index element sel) (\<lambda>h.
        Inr (fcols, (if ''time_id'' \<notin> set fcols then assign_const h ''time_id'' 0 else h), ws))))"

definition History_init ::
  "sheet_data \<Rightarrow> (string \<times> string list) list option \<Rightarrow> error + (history \<times> warning list)" where
  "History_init sheet extra_cols =
     bind_err (snapshot0 (coords sheet @ extra extra_cols ''vert'') (vert_data sheet) ''vertex'' ''vert'')
       (\<lambda>(vcols, vert_h, wv).
     bind_err (snapshot0 (extra extra_cols ''face'') (face_data sheet) ''face'' ''face'')
       (\<lambda>(fcols, face_h, wf).
     bind_err (case cell_data sheet of
                 None \<Rightarrow> Inr ([], [], [], extra extra_cols ''edge'')
               | Some cell_df \<Rightarrow>
                   bind_err (snapshot0 (extra extra_cols ''cell'') cell_df ''cell'' ''cell'')
                     (\<lambda>(ccols, cell_h, wc).
                        Inr ([(''cell'', cell_h)], [(''cell'', ccols)], wc,
                             extra extra_cols ''edge'' @ [''cell''])))
       (\<lambda>(cell_ds, cell_cs, wc, extra_edge).
     bind_err (snapshot0 ([''srce'', ''trgt'', ''face''] @ extra_edge) (edge_data sheet) ''edge'' ''edge'')
       (\<lambda>(ecols, edge_h, we).
        Inr (\<lparr>time_id = 0,
              datasets = [(''vert'', vert_h), (''face'', face_h)] @ cell_ds @ [(''edge'', edge_h)],
              hist_columns = [(''vert'', vcols), (''face'', fcols)] @ cell_cs @ [(''edge'', ecols)],
              time_index = [],
              time_stamps = []\<rparr>,
             wv @ wf @ wc @ we)))))"

text \<open>\<open>record\<close> changes the history in place, also when it raises half way: it
  returns the history as the call leaves it, and the exception if there was one.\<close>

definition record_element :: "sheet_data \<Rightarrow> history \<Rightarrow> string \<Rightarrow> error + history" where
  "record_element sheet h element =
     (case map_of (datasets h) element of None \<Rightarrow> Inl (KeyError element) | Some hist \<Rightarrow>
      case map_of (hist_columns h) element of None \<Rightarrow> Inl (KeyError element) | Some cols \<Rightarrow>
      bind_err (sheet_datasets sheet element) (\<lambda>tbl.
      bind_err (select_columns tbl cols) (\<lambda>sel.
      bind_err (reset_index element sel) (\<lambda>df0.
      let df = (if ''time_id'' \<notin> set cols
                then df0\<lparr>columns := columns df0 @
                        [(''time_id'', replicate (length (index df0)) (1 * real (time_id h)))]\<rparr>
                else df0) in
      bind_err (concat_rows hist df) (\<lambda>hist'.
        Inr (h\<lparr>datasets := AList.update element hist' (datasets h)\<rparr>))))))"

fun record_loop :: "sheet_data \<Rightarrow> history \<Rightarrow> string list \<Rightarrow> history \<times> error option" where
  "record_loop sheet h [] = (h, None)"
| "record_loop sheet h (element # rest) =
     (case record_element sheet h element of
        Inl e \<Rightarrow> (h, Some e)
      | Inr h' \<Rightarrow> record_loop sheet h' rest)"

definition History_record ::
  "sheet_data \<Rightarrow> history \<Rightarrow> string list \<Rightarrow> real option \<Rightarrow> history \<times> error option" where
  "History_record sheet h to_record time_stamp =
     (let h1 = h\<lparr>time_id := time_id h + 1\<rparr>;
          h2 = h1\<lparr>time_index := time_index h1 @ [time_id h1]\<rparr>;
          h3 = (case time_stamp of None \<Rightarrow> h2
                | Some ts \<Rightarrow> h2\<lparr>time_stamps := time_stamps h2 @ [ts]\<rparr>)
      in record_loop sheet h3 to_record)"

text \<open>\<open>_retrieve\<close>: \<open>times[times <= time_id][-1]\<close> is the last of the times up to
  \<open>time_id\<close>, in row order; IndexError when there is none.\<close>

definition retrieve :: "dataframe \<Rightarrow> real \<Rightarrow> error + dataframe" where
  "retrieve dset t_id =
     bind_err (get_column dset ''time_id'') (\<lambda>times.
       case filter (\<lambda>t. t \<le> t_id) times of
         [] \<Rightarrow> Inl IndexError
       | t0 # ts \<Rightarrow>
           let t = last (t0 # ts) in
           bind_err (get_column dset ''time_id'') (\<lambda>col.
             Inr (select_rows dset (map (\<lambda>x. x = t) col))))"

definition retrieve_element :: "history \<Rightarrow> real \<Rightarrow> string \<Rightarrow> dataframe \<Rightarrow> error + dataframe" where
  "retrieve_element h i element hist =
     (case map_of (hist_columns h) element of None \<Rightarrow> Inl (KeyError element) | Some cols \<Rightarrow>
      bind_err (retrieve hist i) (\<lambda>df.
      bind_err (set_index df element) (\<lambda>df'.
        select_columns df' cols)))"

fun retrieve_loop ::
  "history \<Rightarrow> real \<Rightarrow> (string \<times> dataframe) list \<Rightarrow> error + (string \<times> dataframe) list" where
  "retrieve_loop h i [] = Inr []"
| "retrieve_loop h i ((element, hist) # rest) =
     bind_err (retrieve_element h i element hist) (\<lambda>df.
     bind_err (retrieve_loop h i rest) (\<lambda>ds. Inr ((element, df) # ds)))"

definition History_retrieve :: "history \<Rightarrow> real \<Rightarrow> error + (string \<times> dataframe) list" where
  "History_retrieve h i = retrieve_loop h i (datasets h)"


subsection \<open>What the configuration requests\<close>

text \<open>
  The tables a history keeps, the columns \<open>__init__\<close> asks \<open>_filter_columns\<close> for
  each of them, the name the warning gives the table, and the condition under which
  \<open>reset_index\<close> can insert the index: no table has a column named like its own index.
\<close>

definition elements :: "sheet_data \<Rightarrow> string list" where
  "elements sheet =
     [''vert'', ''face''] @ (case cell_data sheet of None \<Rightarrow> [] | Some _ \<Rightarrow> [''cell'']) @ [''edge'']"

definition requested :: "sheet_data \<Rightarrow> (string \<times> string list) list option \<Rightarrow> string \<Rightarrow> string list" where
  "requested sheet extra_cols element =
     (if element = ''vert'' then coords sheet @ extra extra_cols ''vert''
      else if element = ''edge'' then
        [''srce'', ''trgt'', ''face''] @ extra extra_cols ''edge'' @
        (case cell_data sheet of None \<Rightarrow> [] | Some _ \<Rightarrow> [''cell''])
      else extra extra_cols element)"

definition warning_name :: "string \<Rightarrow> string" where
  "warning_name element = (if element = ''vert'' then ''vertex'' else element)"

definition index_names_free :: "sheet_data \<Rightarrow> bool" where
  "index_names_free sheet \<longleftrightarrow>
     ''vert'' \<notin> set (column_names (vert_data sheet)) \<and>
     ''face'' \<notin> set (column_names (face_data sheet)) \<and>
     ''edge'' \<notin> set (column_names (edge_data sheet)) \<and>
     (case cell_data sheet of None \<Rightarrow> True | Some df \<Rightarrow> ''cell'' \<notin> set (column_names df))"

text \<open>A sheet whose vertex table has no \<open>y\<close> column, though \<open>y\<close> is a coordinate.\<close>

definition ex_sheet :: sheet_data where
  "ex_sheet =
     \<lparr>coords = [''x'', ''y''],
      vert_data = \<lparr>index = [0, 1], columns = [(''x'', [1/2, 3])]\<rparr>,
      face_data = \<lparr>index = [0], columns = [(''area'', [2])]\<rparr>,
      cell_data = None,
      edge_data = \<lparr>index = [0, 1],
                   columns = [(''srce'', [0, 1]), (''trgt'', [1, 0]), (''face'', [0, 0])]\<rparr>\<rparr>"

definition ex_extra :: "(string \<times> string list) list option" where
  "ex_extra = Some [(''face'', [''area''])]"

subsection \<open>Histories in use, and what a retrieval should give\<close>

text \<open>A history after a sequence of \<open>record\<close> calls, each with the sheet as it is at that
  moment; a call that raised leaves the history as it was when the exception occurred.\<close>

definition History_run :: "history \<Rightarrow> (sheet_data \<times> string list \<times> real option) list \<Rightarrow> history" where
  "History_run h calls =
     fold (\<lambda>(sheet, to_record, time_stamp) h'. fst (History_record sheet h' to_record time_stamp)) calls h"

text \<open>The column of a name that is a column once (empty otherwise), and the columns a
  history records for an element.\<close>

definition column :: "dataframe \<Rightarrow> string \<Rightarrow> real list" where
  "column df name = (case get_column df name of Inr v \<Rightarrow> v | Inl _ \<Rightarrow> [])"

definition recorded_columns :: "history \<Rightarrow> string \<Rightarrow> string list" where
  "recorded_columns h element =
     (case map_of (hist_columns h) element of Some cols \<Rightarrow> cols | None \<Rightarrow> [])"

text \<open>The rows of a recorded table whose \<open>time_id\<close> equals \<open>t\<close>, and those rows as a
  sheet table: indexed by the element's ids, with the recorded columns only.\<close>

definition rows_at :: "dataframe \<Rightarrow> real \<Rightarrow> dataframe" where
  "rows_at hist t = select_rows hist (map (\<lambda>x. x = t) (column hist ''time_id''))"

definition snapshot_at :: "dataframe \<Rightarrow> string \<Rightarrow> string list \<Rightarrow> real \<Rightarrow> dataframe" where
  "snapshot_at hist element cols t =
     \<lparr>index = column (rows_at hist t) element,
      columns = concat (map (\<lambda>c. filter (\<lambda>nv. fst nv = c) (columns (rows_at hist t))) cols)\<rparr>"

text \<open>The invariant of a recorded table: one \<open>time_id\<close> column, in nondecreasing row
  order, holding 0 and nothing beyond the history's current \<open>time_id\<close>; one column of
  element ids; every recorded column present; and neither \<open>time_id\<close> nor the element's
  name among the recorded columns.\<close>

definition table_ok :: "nat \<Rightarrow> string \<Rightarrow> string list \<Rightarrow> dataframe \<Rightarrow> bool" where
  "table_ok now element cols hist \<longleftrightarrow>
     (\<exists>tms. filter (\<lambda>nv. fst nv = ''time_id'') (columns hist) = [(''time_id'', tms)] \<and>
        sorted tms \<and> 0 \<in> set tms \<and> (\<forall>t \<in> set tms. t \<le> real now)) \<and>
     (\<exists>ids. filter (\<lambda>nv. fst nv = element) (columns hist) = [(element, ids)]) \<and>
     set cols \<subseteq> set (column_names hist) \<and> element \<notin> set cols \<and> ''time_id'' \<notin> set cols"

definition history_ok :: "history \<Rightarrow> bool" where
  "history_ok h \<longleftrightarrow>
     (\<forall>(element, hist) \<in> set (datasets h).
        \<exists>cols. map_of (hist_columns h) element = Some cols \<and>
               table_ok (time_id h) element cols hist)"


text \<open>A later state of \<open>ex_sheet\<close> with three vertices, the history of \<open>ex_sheet\<close>
  right after construction, two \<open>record\<close> calls, and a sheet with no rows at all
  together with its history.\<close>

definition ex_sheet1 :: sheet_data where
  "ex_sheet1 = ex_sheet\<lparr>vert_data := \<lparr>index = [0, 1, 2], columns = [(''x'', [5, 6, 7])]\<rparr>\<rparr>"

definition ex_history :: history where
  "ex_history =
     \<lparr>time_id = 0,
      datasets =
        [(''vert'', \<lparr>index = [0, 1],
            columns = [(''vert'', [0, 1]), (''x'', [1 / 2, 3]), (''time_id'', [0, 0])]\<rparr>),
         (''face'', \<lparr>index = [0],
            columns = [(''face'', [0]), (''area'', [2]), (''time_id'', [0])]\<rparr>),
         (''edge'', \<lparr>index = [0, 1],
            columns = [(''edge'', [0, 1]), (''srce'', [0, 1]), (''trgt'', [1, 0]),
                       (''face'', [0, 0]), (''time_id'', [0, 0])]\<rparr>)],
      hist_columns =
        [(''vert'', [''x'']), (''face'', [''area'']), (''edge'', [''srce'', ''trgt'', ''face''])],
      time_index = [], time_stamps = []\<rparr>"

definition ex_calls :: "(sheet_data \<times> string list \<times> real option) list" where
  "ex_calls = [(ex_sheet1, [''vert''], None), (ex_sheet, [''vert'', ''face''], None)]"

definition ex_empty_sheet :: sheet_data where
  "ex_empty_sheet =
     \<lparr>coords = [''x'', ''y''],
      vert_data = \<lparr>index = [], columns = [(''x'', []), (''y'', [])]\<rparr>,
      face_data = \<lparr>index = [], columns = []\<rparr>,
      cell_data = None,
      edge_data = \<lparr>index = [],
                   columns = [(''srce'', []), (''trgt'', []), (''face'', [])]\<rparr>\<rparr>"

definition ex_empty_history :: history where
  "ex_empty_history =
     \<lparr>time_id = 0,
      datasets =
        [(''vert'', \<lparr>index = [],
            columns = [(''vert'', []), (''x'', []), (''y'', []), (''time_id'', [])]\<rparr>),
         (''face'', \<lparr>index = [], columns = [(''face'', []), (''time_id'', [])]\<rparr>),
         (''edge'', \<lparr>index = [],
            columns = [(''edge'', []), (''srce'', []), (''trgt'', []),
                       (''face'', []), (''time_id'', [])]\<rparr>)],
      hist_columns =
        [(''vert'', [''x'', ''y'']), (''face'', []), (''edge'', [''srce'', ''trgt'', ''face''])],
      time_index = [], time_stamps = []\<rparr>"


section \<open>tyssue/dynamics/sheet_vertex_model.py: energy and gradient\<close>

subsection \<open>Rows of three coordinates\<close>

text \<open>
  One row of an N x 3 array.  numpy adds, subtracts and multiplies rows coordinate by
  coordinate; a scalar multiplies or divides every coordinate.
\<close>

datatype vec = Vec real real real

instantiation vec :: real_vector
begin

definition zero_vec :: vec where
  "zero_vec = Vec 0 0 0"

fun plus_vec :: "vec \<Rightarrow> vec \<Rightarrow> vec" where
  "plus_vec (Vec a b c) (Vec a' b' c') = Vec (a + a') (b + b') (c + c')"

fun minus_vec :: "vec \<Rightarrow> vec \<Rightarrow> vec" where
  "minus_vec (Vec a b c) (Vec a' b' c') = Vec (a - a') (b - b') (c - c')"

fun uminus_vec :: "vec \<Rightarrow> vec" where
  "uminus_vec (Vec a b c) = Vec (- a) (- b) (- c)"

fun scaleR_vec :: "real \<Rightarrow> vec \<Rightarrow> vec" where
  "scaleR_vec k (Vec a b c) = Vec (k * a) (k * b) (k * c)"

instance
proof
  fix a b c :: vec and x y :: real
  show "a + b + c = a + (b + c)" by (cases a; cases b; cases c) simp
  show "a + b = b + a" by (cases a; cases b) simp
  show "0 + a = a" by (cases a) (simp add: zero_vec_def)
  show "- a + a = 0" by (cases a) (simp add: zero_vec_def)
  show "a - b = a + - b" by (cases a; cases b) simp
  show "x *\<^sub>R (a + b) = x *\<^sub>R a + x *\<^sub>R b" by (cases a; cases b) (simp add: algebra_simps)
  show "(x + y) *\<^sub>R a = x *\<^sub>R a + y *\<^sub>R a" by (cases a) (simp add: algebra_simps)
  show "x *\<^sub>R y *\<^sub>R a = (x * y) *\<^sub>R a" by (cases a) simp
  show "1 *\<^sub>R a = a" by (cases a) simp
qed

end

instantiation vec :: times
begin

fun times_vec :: "vec \<Rightarrow> vec \<Rightarrow> vec" where
  "times_vec (Vec a b c) (Vec a' b' c') = Vec (a * a') (b * b') (c * c')"

instance ..

end

text \<open>\<open>_to_3d\<close> (utils.py is not among the sources; the spec has the per-edge scalars
  multiply the gradient rows): each value of a column repeated over the three
  coordinates.\<close>

definition to_3d :: "real list \<Rightarrow> vec list" where
  "to_3d col = map (\<lambda>x. Vec x x x) col"


subsection \<open>The sheet\<close>

text \<open>
  The tables of a sheet as the vertex model reads them.  A row's id is its position in
  the table.  The columns the model reads from every sheet are fields of the rows;
  \<open>edge_columns\<close> lists the names of the columns of the edge table, which the model
  inspects for the optional \<open>is_anchor\<close> and \<open>anchor_elasticity\<close>: a row's field of an
  absent column is never read.  \<open>specs\<close> is the sheet's dictionary of dictionaries.
\<close>

record vert_row =
  is_active :: real
  height :: real

record edge_row =
  srce :: nat
  trgt :: nat
  face :: nat
  edge_length :: real
  sub_area :: real
  line_tension :: real
  is_anchor :: real
  anchor_elasticity :: real

record face_row =
  is_alive :: real
  vol :: real
  perimeter :: real
  vol_elasticity :: real
  prefered_vol :: real
  contractility :: real

record sheet =
  vert_df :: "vert_row list"
  edge_df :: "edge_row list"
  face_df :: "face_row list"
  edge_columns :: "string list"
  specs :: "string \<rightharpoonup> (string \<rightharpoonup> real)"

text \<open>\<open>sheet.specs['settings'][key]\<close>.\<close>

definition setting :: "sheet \<Rightarrow> string \<Rightarrow> error + real" where
  "setting sheet key =
     (case specs sheet ''settings'' of
        None \<Rightarrow> Inl (KeyError ''settings'')
      | Some d \<Rightarrow> (case d key of None \<Rightarrow> Inl (KeyError key) | Some v \<Rightarrow> Inr v))"

text \<open>Modelled from the spec: \<open>upcast_face\<close>, \<open>upcast_srce\<close>, \<open>sum_srce\<close> and \<open>sum_trgt\<close>
  of the Sheet class, which is not among the sources.  An upcast broadcasts a per-face or
  per-vertex value onto every half-edge referencing that face or vertex (a reference to
  a row that does not exist is a KeyError); a sum gives each vertex the sum of the
  per-half-edge values over the half-edges of which it is the source, or the target.\<close>

definition upcast :: "(edge_row \<Rightarrow> nat) \<Rightarrow> string \<Rightarrow> sheet \<Rightarrow> 'a list \<Rightarrow> error + 'a list" where
  "upcast ref name sheet col =
     (if \<forall>e \<in> set (edge_df sheet). ref e < length col
      then Inr (map (\<lambda>e. col ! ref e) (edge_df sheet))
      else Inl (KeyError name))"

definition upcast_face :: "sheet \<Rightarrow> 'a list \<Rightarrow> error + 'a list" where
  "upcast_face = upcast face ''face''"

definition upcast_srce :: "sheet \<Rightarrow> 'a list \<Rightarrow> error + 'a list" where
  "upcast_srce = upcast srce ''srce''"

definition sum_at :: "(edge_row \<Rightarrow> nat) \<Rightarrow> sheet \<Rightarrow> vec list \<Rightarrow> nat \<Rightarrow> vec" where
  "sum_at ref sheet g i = (\<Sum>(e, x)\<leftarrow>zip (edge_df sheet) g. if ref e = i then x else 0)"

definition sum_over :: "(edge_row \<Rightarrow> nat) \<Rightarrow> sheet \<Rightarrow> vec list \<Rightarrow> vec list" where
  "sum_over ref sheet g = map (sum_at ref sheet g) [0..<length (vert_df sheet)]"

definition sum_srce :: "sheet \<Rightarrow> vec list \<Rightarrow> vec list" where
  "sum_srce = sum_over srce"

definition sum_trgt :: "sheet \<Rightarrow> vec list \<Rightarrow> vec list" where
  "sum_trgt = sum_over trgt"

text \<open>Modelled from the spec: \<open>elastic_energy\<close> and \<open>elastic_force\<close> of effectors.py,
  which is not among the sources: \<open>0.5 K (x - x0)^2\<close> and \<open>K (x - x0)\<close> for each row, the
  three columns given by name.\<close>

definition elastic_energy ::
  "'r list \<Rightarrow> ('r \<Rightarrow> real) \<Rightarrow> ('r \<Rightarrow> real) \<Rightarrow> ('r \<Rightarrow> real) \<Rightarrow> real list" where
  "elastic_energy df var elasticity prefered =
     map (\<lambda>r. 0.5 * elasticity r * (var r - prefered r) ^ 2) df"

definition elastic_force ::
  "'r list \<Rightarrow> ('r \<Rightarrow> real) \<Rightarrow> ('r \<Rightarrow> real) \<Rightarrow> ('r \<Rightarrow> real) \<Rightarrow> real list" where
  "elastic_force df var elasticity prefered =
     map (\<lambda>r. elasticity r * (var r - prefered r)) df"

subsection \<open>\<open>SheetModel.compute_energy\<close>\<close>

text \<open>
  What a call returns: a number, a Series (one number per row), an array of rows, or a
  sequence of such values (a generator, a tuple).  The normalisation factor divides
  numpy values: a zero factor gives \<open>inf\<close> or \<open>nan\<close>, not an exception.
\<close>

datatype py_value =
    Scalar real
  | Series "real list"
  | Array "vec list"
  | Sequence "py_value list"

definition anchor_energy :: "sheet \<Rightarrow> error + real list" where
  "anchor_energy sheet =
     (if ''anchor_elasticity'' \<notin> set (edge_columns sheet)
      then Inl (UndefinedVariableError ''anchor_elasticity'')
      else Inr (map (\<lambda>e. anchor_elasticity e * edge_length e ^ 2 * is_anchor e / 2) (edge_df sheet)))"

definition compute_energy :: "sheet \<Rightarrow> bool \<Rightarrow> error + py_value" where
  "compute_energy sheet full_output =
     (let live_face_df = filter (\<lambda>f. is_alive f = 1) (face_df sheet) in
      bind_err (upcast_face sheet (map is_alive (face_df sheet))) (\<lambda>upcast_alive.
      let live_edge_df = keep (map (\<lambda>a. a = 1) upcast_alive) (edge_df sheet);
          E_t = map (\<lambda>e. line_tension e * edge_length e / 2) live_edge_df;
          E_v = elastic_energy live_face_df vol vol_elasticity prefered_vol;
          E_c = map (\<lambda>f. 0.5 * contractility f * perimeter f ^ 2) live_face_df;
          energies = [E_t, E_v, E_c]
      in
      bind_err (if ''is_anchor'' \<in> set (edge_columns sheet)
                then bind_err (anchor_energy sheet) (\<lambda>E_a. Inr (energies @ [E_a]))
                else Inr energies) (\<lambda>energies.
      bind_err (setting sheet ''nrj_norm_factor'') (\<lambda>nrj_norm_factor.
        if nrj_norm_factor = 0 then Inl Unmodelled
        else if full_output
        then Inr (Sequence (map (\<lambda>E. Series (map (\<lambda>x. x / nrj_norm_factor) E)) energies))
        else Inr (Scalar (sum_list (map sum_list energies) / nrj_norm_factor))))))"

subsection \<open>\<open>SheetModel.compute_gradient\<close>\<close>

text \<open>
  The geometry functions the gradient calls (\<open>length_grad\<close> of base_gradients.py,
  \<open>area_grad\<close> and \<open>height_grad\<close> of sheet_gradients.py, not among the sources) are
  parameters: \<open>length_grad\<close> and \<open>area_grad\<close> give a row, or a pair of rows, for each
  half-edge, \<open>height_grad\<close> a row for each vertex.
\<close>

record geometry =
  length_grad :: "sheet \<Rightarrow> nat \<Rightarrow> vec"
  area_grad :: "sheet \<Rightarrow> nat \<Rightarrow> vec \<times> vec"
  height_grad :: "sheet \<Rightarrow> nat \<Rightarrow> vec"

definition edge_rows :: "sheet \<Rightarrow> (nat \<Rightarrow> 'a) \<Rightarrow> 'a list" where
  "edge_rows sheet f = map f [0..<length (edge_df sheet)]"

definition vert_rows :: "sheet \<Rightarrow> (nat \<Rightarrow> 'a) \<Rightarrow> 'a list" where
  "vert_rows sheet f = map f [0..<length (vert_df sheet)]"

text \<open>\<open>compute_gradient\<close> is a class method: \<open>cls.tension_grad\<close> and
  \<open>cls.contractile_grad\<close> are inherited from PlanarModel, which is not among the sources,
  and are parameters as well.  Each gives a row for each half-edge.\<close>

record model_class =
  tension_grad :: "sheet \<Rightarrow> vec list \<Rightarrow> nat \<Rightarrow> vec"
  contractile_grad :: "sheet \<Rightarrow> vec list \<Rightarrow> nat \<Rightarrow> vec"

definition elastic_grad :: "geometry \<Rightarrow> sheet \<Rightarrow> error + vec list \<times> vec list" where
  "elastic_grad geom sheet =
     (let kv_v0_face = elastic_force (face_df sheet) vol vol_elasticity prefered_vol;
          kv_v0_live = map2 (*) kv_v0_face (map is_alive (face_df sheet))
      in
      bind_err (upcast_face sheet kv_v0_live) (\<lambda>up_kv.
      let kv_v0 = to_3d up_kv in
      bind_err (upcast_srce sheet (map height (vert_df sheet))) (\<lambda>up_h.
      let edge_h = to_3d up_h;
          area_col = map sub_area (edge_df sheet);
          area = to_3d area_col;
          grad_a_srce = edge_rows sheet (\<lambda>k. fst (area_grad geom sheet k));
          grad_a_trgt = edge_rows sheet (\<lambda>k. snd (area_grad geom sheet k))
      in
      bind_err (upcast_srce sheet (vert_rows sheet (height_grad geom sheet))) (\<lambda>grad_h.
      let grad_v_srce = map2 (*) kv_v0 (map2 (+) (map2 (*) edge_h grad_a_srce) (map2 (*) area grad_h));
          grad_v_trgt = map2 (*) kv_v0 (map2 (*) edge_h grad_a_trgt)
      in Inr (grad_v_srce, grad_v_trgt)))))"

definition anchor_grad :: "sheet \<Rightarrow> vec list \<Rightarrow> error + vec list" where
  "anchor_grad sheet grad_lij =
     (if ''anchor_elasticity'' \<notin> set (edge_columns sheet)
      then Inl (UndefinedVariableError ''anchor_elasticity'')
      else if ''is_anchor'' \<notin> set (edge_columns sheet)
      then Inl (UndefinedVariableError ''is_anchor'')
      else let ka = map (\<lambda>e. anchor_elasticity e * edge_length e * is_anchor e) (edge_df sheet)
           in Inr (map2 (*) grad_lij (to_3d ka)))"

text \<open>Lines 106 to 112: the contributions of the half-edges summed onto the vertices.\<close>

definition grad_i ::
  "sheet \<Rightarrow> vec list \<Rightarrow> vec list \<Rightarrow> vec list \<Rightarrow> vec list \<Rightarrow> vec list option \<Rightarrow> vec list" where
  "grad_i sheet grad_t grad_c grad_v_srce grad_v_trgt grad_a =
     (let g = map2 (+)
                (map2 (+)
                   (map2 (-)
                      (map2 (+)
                         (map (\<lambda>v. v /\<^sub>R 2) (map2 (-) (sum_srce sheet grad_t) (sum_trgt sheet grad_t)))
                         (sum_srce sheet grad_c))
                      (sum_trgt sheet grad_c))
                   (sum_srce sheet grad_v_srce))
                (sum_trgt sheet grad_v_trgt)
      in case grad_a of None \<Rightarrow> g | Some ga \<Rightarrow> map2 (+) g (sum_srce sheet ga))"

text \<open>Lines 92 to 101: the terms, one array of rows per term, the anchor term only
  when the edge table has an \<open>is_anchor\<close> column.\<close>

definition gradient_terms ::
  "model_class \<Rightarrow> geometry \<Rightarrow> sheet \<Rightarrow>
   error + vec list \<times> vec list \<times> vec list \<times> vec list \<times> vec list option" where
  "gradient_terms cls geom sheet =
     (let grad_lij = edge_rows sheet (length_grad geom sheet);
          grad_t = edge_rows sheet (tension_grad cls sheet grad_lij);
          grad_c = edge_rows sheet (contractile_grad cls sheet grad_lij) in
      bind_err (elastic_grad geom sheet) (\<lambda>(grad_v_srce, grad_v_trgt).
      bind_err (if ''is_anchor'' \<in> set (edge_columns sheet)
                then bind_err (anchor_grad sheet grad_lij) (\<lambda>ga. Inr (Some ga))
                else Inr None) (\<lambda>grad_a.
        Inr (grad_t, grad_c, grad_v_srce, grad_v_trgt, grad_a))))"

definition compute_gradient ::
  "model_class \<Rightarrow> geometry \<Rightarrow> sheet \<Rightarrow> bool \<Rightarrow> error + py_value" where
  "compute_gradient cls geom sheet components =
     bind_err (setting sheet ''nrj_norm_factor'') (\<lambda>norm_factor.
     bind_err (gradient_terms cls geom sheet) (\<lambda>(grad_t, grad_c, grad_v_srce, grad_v_trgt, grad_a).
       if components
       then Inr (Sequence (map Array ([grad_t, grad_c, grad_v_srce, grad_v_trgt] @
                                       (case grad_a of None \<Rightarrow> [] | Some ga \<Rightarrow> [ga]))))
       else if norm_factor = 0 then Inl Unmodelled
       else Inr (Array (map (\<lambda>v. v /\<^sub>R norm_factor)
                   (map2 (*) (grad_i sheet grad_t grad_c grad_v_srce grad_v_trgt grad_a)
                      (to_3d (map is_active (vert_df sheet))))))))"

subsection \<open>What the specification says of energy and gradient\<close>

text \<open>Every half-edge refers to rows that exist (invariant (ii) of the data model).\<close>

definition references_ok :: "sheet \<Rightarrow> bool" where
  "references_ok sheet \<longleftrightarrow>
     (\<forall>e \<in> set (edge_df sheet).
        face e < length (face_df sheet) \<and>
        srce e < length (vert_df sheet) \<and>
        trgt e < length (vert_df sheet))"

definition live :: "sheet \<Rightarrow> edge_row \<Rightarrow> bool" where
  "live sheet e \<longleftrightarrow> is_alive (face_df sheet ! face e) = 1"

text \<open>The four terms of the energy as the specification writes them, not yet
  normalised.\<close>

definition tension_energy :: "sheet \<Rightarrow> real" where
  "tension_energy sheet =
     (\<Sum>e\<leftarrow>edge_df sheet. if live sheet e then line_tension e * edge_length e / 2 else 0)"

definition volume_energy :: "sheet \<Rightarrow> real" where
  "volume_energy sheet =
     (\<Sum>f\<leftarrow>face_df sheet.
        if is_alive f = 1 then 0.5 * vol_elasticity f * (vol f - prefered_vol f) ^ 2 else 0)"

definition contractile_energy :: "sheet \<Rightarrow> real" where
  "contractile_energy sheet =
     (\<Sum>f\<leftarrow>face_df sheet. if is_alive f = 1 then 0.5 * contractility f * perimeter f ^ 2 else 0)"

definition anchor_energy_sum :: "sheet \<Rightarrow> real" where
  "anchor_energy_sum sheet =
     (\<Sum>e\<leftarrow>edge_df sheet. 0.5 * anchor_elasticity e * edge_length e ^ 2 * is_anchor e)"

definition energy_terms :: "sheet \<Rightarrow> real list" where
  "energy_terms sheet =
     [tension_energy sheet, volume_energy sheet, contractile_energy sheet] @
     (if ''is_anchor'' \<in> set (edge_columns sheet) then [anchor_energy_sum sheet] else [])"

text \<open>The default-mode gradient as the specification states it: the aggregation of the
  terms onto the vertices, multiplied by the active-vertex mask and divided by a setting.
  The aggregation and the setting are arguments, so that the statement can be compared
  with the code.\<close>

definition stated_gradient ::
  "string \<Rightarrow> (sheet \<Rightarrow> vec list \<Rightarrow> vec list \<Rightarrow> vec list \<Rightarrow> vec list \<Rightarrow> vec list option \<Rightarrow> vec list) \<Rightarrow>
   model_class \<Rightarrow> geometry \<Rightarrow> sheet \<Rightarrow> error + py_value" where
  "stated_gradient key aggregate cls geom sheet =
     bind_err (setting sheet key) (\<lambda>factor.
     bind_err (gradient_terms cls geom sheet) (\<lambda>(grad_t, grad_c, grad_v_srce, grad_v_trgt, grad_a).
       if factor = 0 then Inl Unmodelled
       else Inr (Array (map (\<lambda>v. v /\<^sub>R factor)
                   (map2 (*) (aggregate sheet grad_t grad_c grad_v_srce grad_v_trgt grad_a)
                      (to_3d (map is_active (vert_df sheet))))))))"

text \<open>The aggregation as the specification words it: tension as half of source sum
  minus target sum, contractile and anchor terms as source sum plus target sum, the two
  elastic contributions onto their own role.\<close>

definition stated_aggregation ::
  "sheet \<Rightarrow> vec list \<Rightarrow> vec list \<Rightarrow> vec list \<Rightarrow> vec list \<Rightarrow> vec list option \<Rightarrow> vec list" where
  "stated_aggregation sheet grad_t grad_c grad_v_srce grad_v_trgt grad_a =
     vert_rows sheet (\<lambda>i.
       (sum_at srce sheet grad_t i - sum_at trgt sheet grad_t i) /\<^sub>R 2 +
       (sum_at srce sheet grad_c i + sum_at trgt sheet grad_c i) +
       sum_at srce sheet grad_v_srce i + sum_at trgt sheet grad_v_trgt i +
       (case grad_a of None \<Rightarrow> 0
        | Some ga \<Rightarrow> sum_at srce sheet ga i + sum_at trgt sheet ga i))"


text \<open>A sheet of three vertices (the last inactive), a live triangle and a dead face, with
  anchor columns, together with a geometry and the PlanarModel methods as the
  specification describes them.\<close>

definition ex_mesh :: sheet where
  "ex_mesh =
     \<lparr>vert_df = [\<lparr>is_active = 1, height = 2\<rparr>, \<lparr>is_active = 1, height = 1\<rparr>,
                 \<lparr>is_active = 0, height = 3\<rparr>],
      edge_df =
        [\<lparr>srce = 0, trgt = 1, face = 0, edge_length = 2, sub_area = 1, line_tension = 3,
          is_anchor = 0, anchor_elasticity = 0\<rparr>,
         \<lparr>srce = 1, trgt = 2, face = 0, edge_length = 1, sub_area = 2, line_tension = 4,
          is_anchor = 0, anchor_elasticity = 0\<rparr>,
         \<lparr>srce = 2, trgt = 0, face = 0, edge_length = 3, sub_area = 1, line_tension = 2,
          is_anchor = 1, anchor_elasticity = 2\<rparr>,
         \<lparr>srce = 1, trgt = 0, face = 1, edge_length = 2, sub_area = 5, line_tension = 7,
          is_anchor = 0, anchor_elasticity = 0\<rparr>],
      face_df =
        [\<lparr>is_alive = 1, vol = 5, perimeter = 6, vol_elasticity = 2, prefered_vol = 3,
          contractility = 1\<rparr>,
         \<lparr>is_alive = 0, vol = 9, perimeter = 2, vol_elasticity = 2, prefered_vol = 1,
          contractility = 5\<rparr>],
      edge_columns = [''srce'', ''trgt'', ''face'', ''length'', ''sub_area'', ''line_tension'',
                      ''is_anchor'', ''anchor_elasticity''],
      specs = [''settings'' \<mapsto> [''grad_norm_factor'' \<mapsto> 2, ''nrj_norm_factor'' \<mapsto> 4]]\<rparr>"

definition ex_geom :: geometry where
  "ex_geom =
     \<lparr>length_grad = (\<lambda>sheet k. Vec 1 (real k) 0),
      area_grad = (\<lambda>sheet k. (Vec 0 1 0, Vec 0 0 1)),
      height_grad = (\<lambda>sheet i. Vec 1 1 1)\<rparr>"

definition ex_cls :: model_class where
  "ex_cls =
     \<lparr>tension_grad = (\<lambda>sheet grad_lij k. line_tension (edge_df sheet ! k) *\<^sub>R (grad_lij ! k)),
      contractile_grad = (\<lambda>sheet grad_lij k.
         (contractility (face_df sheet ! face (edge_df sheet ! k)) *
          perimeter (face_df sheet ! face (edge_df sheet ! k))) *\<^sub>R (grad_lij ! k))\<rparr>"



section \<open>Properties of history.py\<close>

subsection \<open>Column filtering\<close>

lemma filter_columns_set:
  "set (fst (filter_columns req present name)) = set req \<inter> set present"
  by (auto simp: filter_columns_def)

lemma filter_columns_keep:
  "set req \<subseteq> set present \<Longrightarrow> filter_columns req present name = (req, [])"
  by (simp add: filter_columns_def)

lemma filter_columns_warn:
  "\<not> set req \<subseteq> set present \<Longrightarrow>
   snd (filter_columns req present name) = [ColumnsNotSaved (set req - set present) name]"
  by (simp add: filter_columns_def)

lemma select_columns_Inr:
  assumes "set cols \<subseteq> set (column_names df)"
  shows "select_columns df cols =
    Inr (df\<lparr>columns := concat (map (\<lambda>c. filter (\<lambda>nv. fst nv = c) (columns df)) cols)\<rparr>)"
proof -
  have "filter (\<lambda>c. c \<notin> set (column_names df)) cols = []"
    using assms by (auto simp: filter_empty_conv)
  then show ?thesis by (simp add: select_columns_def)
qed

lemma names_concat_filter:
  "set cols \<subseteq> fst ` set cs \<Longrightarrow>
   set (map fst (concat (map (\<lambda>c. filter (\<lambda>nv. fst nv = c) cs) cols))) = set cols"
  by (induction cols) (auto simp: image_iff)

lemma snapshot0_Inr:
  assumes "element \<notin> set (column_names df)"
  obtains tbl where
    "snapshot0 cols df name element =
       Inr (fst (filter_columns cols (column_names df) name), tbl,
            snd (filter_columns cols (column_names df) name))"
    "set (column_names tbl) =
       insert element (insert ''time_id'' (set cols \<inter> set (column_names df)))"
proof -
  let ?fc = "filter_columns cols (column_names df) name"
  let ?sel = "df\<lparr>columns := concat (map (\<lambda>c. filter (\<lambda>nv. fst nv = c) (columns df)) (fst ?fc))\<rparr>"
  have sub: "set (fst ?fc) \<subseteq> set (column_names df)"
    by (simp add: filter_columns_set)
  have sel: "select_columns df (fst ?fc) = Inr ?sel"
    by (rule select_columns_Inr [OF sub])
  have names: "set (column_names ?sel) = set cols \<inter> set (column_names df)"
    using names_concat_filter [of "fst ?fc" "columns df"] sub
    by (simp add: column_names_def filter_columns_set)
  have notin: "element \<notin> set (column_names ?sel)"
    using assms names by auto
  show ?thesis
  proof (rule that)
    show "snapshot0 cols df name element = Inr (fst ?fc, 
        (if ''time_id'' \<notin> set (fst ?fc) then assign_const \<lparr>index = map real [0..<length (index ?sel)],
                columns = (element, index ?sel) # columns ?sel\<rparr> ''time_id'' 0 else \<lparr>index = map real [0..<length (index ?sel)],
                columns = (element, index ?sel) # columns ?sel\<rparr>), snd ?fc)"
      using notin by (simp add: snapshot0_def sel bind_err_def reset_index_def split_beta)
    show "set (column_names (if ''time_id'' \<notin> set (fst ?fc) then assign_const \<lparr>index = map real [0..<length (index ?sel)],
                columns = (element, index ?sel) # columns ?sel\<rparr> ''time_id'' 0 else \<lparr>index = map real [0..<length (index ?sel)],
                columns = (element, index ?sel) # columns ?sel\<rparr>)) =
       insert element (insert ''time_id'' (set cols \<inter> set (column_names df)))"
      using names 
      by (auto simp: assign_const_def column_names_def Let_def filter_columns_set image_iff)
  qed
qed


lemma warnings_of_filter:
  "snd (filter_columns req present name) =
     (if set req \<subseteq> set present then [] else [ColumnsNotSaved (set req - set present) name])"
  by (simp add: filter_columns_def)

text \<open>
  Claim C9.  Whatever columns the configuration requests, \<open>History.__init__\<close> returns a
  history (for a sheet none of whose tables has a column named like its index).  For
  each table it keeps, the recorded columns are the requested columns that the table has;
  if the table has them all, the request is kept as it is and no warning names the table;
  otherwise a warning names the table and the missing columns.
\<close>

theorem History_init_column_mismatch:
  assumes free: "index_names_free sheet"
  shows "\<exists>h ws. History_init sheet extra_cols = Inr (h, ws) \<and>
           map fst (datasets h) = elements sheet \<and>
           (\<forall>element \<in> set (elements sheet).
              \<exists>df hist cs.
                sheet_datasets sheet element = Inr df \<and>
                map_of (datasets h) element = Some hist \<and>
                map_of (hist_columns h) element = Some cs \<and>
                set cs = set (requested sheet extra_cols element) \<inter> set (column_names df) \<and>
                set (column_names hist) = insert element (insert ''time_id'' (set cs)) \<and>
                (if set (requested sheet extra_cols element) \<subseteq> set (column_names df)
                 then cs = requested sheet extra_cols element \<and>
                      (\<forall>m. ColumnsNotSaved m (warning_name element) \<notin> set ws)
                 else ColumnsNotSaved
                        (set (requested sheet extra_cols element) - set (column_names df))
                        (warning_name element) \<in> set ws))"
proof -
  let ?rv = "coords sheet @ extra extra_cols ''vert''"
  let ?rf = "extra extra_cols ''face''"
  from free have fv: "''vert'' \<notin> set (column_names (vert_data sheet))"
    and ff: "''face'' \<notin> set (column_names (face_data sheet))"
    and fe: "''edge'' \<notin> set (column_names (edge_data sheet))"
    by (simp_all add: index_names_free_def)
  obtain vert_h where
    v: "snapshot0 ?rv (vert_data sheet) ''vertex'' ''vert'' =
          Inr (fst (filter_columns ?rv (column_names (vert_data sheet)) ''vertex''), vert_h,
               snd (filter_columns ?rv (column_names (vert_data sheet)) ''vertex''))"
    and vn: "set (column_names vert_h) =
          insert ''vert'' (insert ''time_id'' (set ?rv \<inter> set (column_names (vert_data sheet))))"
    using snapshot0_Inr [OF fv] by metis
  obtain face_h where
    f: "snapshot0 ?rf (face_data sheet) ''face'' ''face'' =
          Inr (fst (filter_columns ?rf (column_names (face_data sheet)) ''face''), face_h,
               snd (filter_columns ?rf (column_names (face_data sheet)) ''face''))"
    and fn: "set (column_names face_h) =
          insert ''face'' (insert ''time_id'' (set ?rf \<inter> set (column_names (face_data sheet))))"
    using snapshot0_Inr [OF ff] by metis
  show ?thesis
  proof (cases "cell_data sheet")
    case None
    let ?re = "''srce'' # ''trgt'' # ''face'' # extra extra_cols ''edge''"
    obtain edge_h where
      e: "snapshot0 ?re (edge_data sheet) ''edge'' ''edge'' =
            Inr (fst (filter_columns ?re (column_names (edge_data sheet)) ''edge''), edge_h,
                 snd (filter_columns ?re (column_names (edge_data sheet)) ''edge''))"
      and en: "set (column_names edge_h) =
            insert ''edge'' (insert ''time_id'' (set ?re \<inter> set (column_names (edge_data sheet))))"
      using snapshot0_Inr [OF fe] by metis
    show ?thesis
      using None vn fn en
      by (simp add: History_init_def bind_err_def v f e elements_def requested_def
          sheet_datasets_def warning_name_def filter_columns_set warnings_of_filter
          filter_columns_keep)
  next
    case (Some cell_df)
    let ?rc = "extra extra_cols ''cell''"
    let ?re = "''srce'' # ''trgt'' # ''face'' # extra extra_cols ''edge'' @ [''cell'']"
    from free Some have fc: "''cell'' \<notin> set (column_names cell_df)"
      by (simp add: index_names_free_def)
    obtain cell_h where
      c: "snapshot0 ?rc cell_df ''cell'' ''cell'' =
            Inr (fst (filter_columns ?rc (column_names cell_df) ''cell''), cell_h,
                 snd (filter_columns ?rc (column_names cell_df) ''cell''))"
      and cn: "set (column_names cell_h) =
            insert ''cell'' (insert ''time_id'' (set ?rc \<inter> set (column_names cell_df)))"
      using snapshot0_Inr [OF fc] by metis
    obtain edge_h where
      e: "snapshot0 ?re (edge_data sheet) ''edge'' ''edge'' =
            Inr (fst (filter_columns ?re (column_names (edge_data sheet)) ''edge''), edge_h,
                 snd (filter_columns ?re (column_names (edge_data sheet)) ''edge''))"
      and en: "set (column_names edge_h) =
            insert ''edge'' (insert ''time_id'' (set ?re \<inter> set (column_names (edge_data sheet))))"
      using snapshot0_Inr [OF fe] by metis
    show ?thesis
      using Some vn fn en cn
      by (simp add: History_init_def bind_err_def v f e c elements_def requested_def
          sheet_datasets_def warning_name_def filter_columns_set warnings_of_filter
          filter_columns_keep)
  qed
qed

theorem History_init_column_mismatch_witness:
  "index_names_free ex_sheet \<and>
   (\<exists>h ws. History_init ex_sheet ex_extra = Inr (h, ws) \<and>
      map fst (datasets h) = [''vert'', ''face'', ''edge''])"
proof -
  have free: "index_names_free ex_sheet"
    by (simp add: index_names_free_def ex_sheet_def column_names_def)
  have el: "elements ex_sheet = [''vert'', ''face'', ''edge'']"
    by (simp add: elements_def ex_sheet_def)
  from History_init_column_mismatch [OF free, of ex_extra]
  obtain h ws where init: "History_init ex_sheet ex_extra = Inr (h, ws)"
    and keys: "map fst (datasets h) = elements ex_sheet"
    by (elim exE conjE)
  from free init keys show ?thesis
    unfolding el by (intro conjI exI)
qed


subsection \<open>Retrieval\<close>

lemma last_sorted_Max: "sorted xs \<Longrightarrow> xs \<noteq> [] \<Longrightarrow> last xs = Max (set xs)"
proof (induction xs)
  case Nil
  then show ?case by simp
next
  case (Cons x xs)
  show ?case
  proof (cases "xs = []")
    case True
    then show ?thesis by simp
  next
    case False
    with Cons have "last xs = Max (set xs)" by simp
    moreover from Cons.prems False have "x \<le> Max (set xs)"
      by (metis List.finite_set Max_ge_iff last_in_set set_empty sorted_simps(2))
    ultimately show ?thesis using False by (simp add: max_def)
  qed
qed

lemma last_filter_le_Max:
  assumes "sorted xs" "filter (\<lambda>t. t \<le> i) xs \<noteq> []"
  shows "last (filter (\<lambda>t. t \<le> i) xs) = Max {t \<in> set xs. t \<le> (i::real)}"
proof -
  have "sorted (filter (\<lambda>t. t \<le> i) xs)" using assms(1) by (rule sorted_wrt_filter)
  from last_sorted_Max [OF this assms(2)] show ?thesis by simp
qed

lemma get_column_single:
  "filter (\<lambda>nv. fst nv = name) (columns df) = [(name, v)] \<Longrightarrow> get_column df name = Inr v"
  by (simp add: get_column_def)

lemma column_single:
  "filter (\<lambda>nv. fst nv = name) (columns df) = [(name, v)] \<Longrightarrow> column df name = v"
  by (simp add: column_def get_column_single)

lemma retrieve_ok:
  assumes tc: "filter (\<lambda>nv. fst nv = ''time_id'') (columns hist) = [(''time_id'', tms)]"
    and srt: "sorted tms" and zero: "0 \<in> set tms" and i: "0 \<le> i"
  shows "retrieve hist i = Inr (rows_at hist (Max {t \<in> set tms. t \<le> i}))"
    and "{t \<in> set tms. t \<le> i} \<noteq> {}"
proof -
  from zero i have mem: "0 \<in> set (filter (\<lambda>t. t \<le> i) tms)" by simp
  then have ne: "filter (\<lambda>t. t \<le> i) tms \<noteq> []" by (metis empty_iff empty_set)
  then obtain t0 ts where f: "filter (\<lambda>t. t \<le> i) tms = t0 # ts"
    by (cases "filter (\<lambda>t. t \<le> i) tms") auto
  have "last (t0 # ts) = Max {t \<in> set tms. t \<le> i}"
    using last_filter_le_Max [OF srt ne] by (simp only: f)
  then show "retrieve hist i = Inr (rows_at hist (Max {t \<in> set tms. t \<le> i}))"
    by (simp add: retrieve_def bind_err_def get_column_single [OF tc] f rows_at_def
        column_single [OF tc] Let_def del: last.simps)
  from mem show "{t \<in> set tms. t \<le> i} \<noteq> {}" by auto
qed


lemma filter_select_rows:
  "filter (\<lambda>nv. fst nv = c) (columns (select_rows df msk)) =
   map (\<lambda>nv. (fst nv, keep msk (snd nv))) (filter (\<lambda>nv. fst nv = c) (columns df))"
  by (simp add: select_rows_def filter_map o_def)

lemma column_names_select_rows: "column_names (select_rows df msk) = column_names df"
  by (simp add: select_rows_def column_names_def o_def)

lemma concat_filter_other:
  "element \<notin> set cols \<Longrightarrow>
   concat (map (\<lambda>c. filter (\<lambda>nv. fst nv = c) (filter (\<lambda>nv. fst nv \<noteq> element) xs)) cols) =
   concat (map (\<lambda>c. filter (\<lambda>nv. fst nv = c) xs) cols)"
proof (induction cols)
  case Nil
  then show ?case by simp
next
  case (Cons c cols)
  then have "c \<noteq> element" by auto
  then have "filter (\<lambda>nv. fst nv = c) (filter (\<lambda>nv. fst nv \<noteq> element) xs) =
             filter (\<lambda>nv. fst nv = c) xs"
    by (auto intro: filter_cong)
  with Cons show ?case by simp
qed

lemma view_ok:
  assumes el: "filter (\<lambda>nv. fst nv = element) (columns df) = [(element, ids)]"
    and sub: "set cols \<subseteq> set (column_names df)" and notin: "element \<notin> set cols"
  shows "bind_err (set_index df element) (\<lambda>df'. select_columns df' cols) =
         Inr \<lparr>index = column df element,
              columns = concat (map (\<lambda>c. filter (\<lambda>nv. fst nv = c) (columns df)) cols)\<rparr>"
proof -
  let ?df' = "\<lparr>index = ids, columns = filter (\<lambda>nv. fst nv \<noteq> element) (columns df)\<rparr>"
  have si: "set_index df element = Inr ?df'"
    by (simp add: set_index_def bind_err_def get_column_single [OF el])
  have "set cols \<subseteq> set (column_names ?df')"
    using sub notin by (auto simp: column_names_def)
  from select_columns_Inr [OF this]
  have "select_columns ?df' cols =
        Inr \<lparr>index = ids,
             columns = concat (map (\<lambda>c. filter (\<lambda>nv. fst nv = c) (columns df)) cols)\<rparr>"
    by (simp only: dataframe.select_convs dataframe.update_convs concat_filter_other [OF notin])
  then show ?thesis
    by (simp add: si bind_err_def column_single [OF el])
qed

lemma retrieve_element_ok:
  assumes ok: "table_ok now element cols hist"
    and cols: "map_of (hist_columns h) element = Some cols"
    and i: "0 \<le> i"
  shows "retrieve_element h i element hist =
           Inr (snapshot_at hist element cols (Max {t \<in> set (column hist ''time_id''). t \<le> i}))"
    and "{t \<in> set (column hist ''time_id''). t \<le> i} \<noteq> {}"
proof -
  from ok obtain tms ids where
      tc: "filter (\<lambda>nv. fst nv = ''time_id'') (columns hist) = [(''time_id'', tms)]"
    and srt: "sorted tms" and zero: "0 \<in> set tms"
    and ec: "filter (\<lambda>nv. fst nv = element) (columns hist) = [(element, ids)]"
    and sub: "set cols \<subseteq> set (column_names hist)" and notin: "element \<notin> set cols"
    unfolding table_ok_def by blast
  let ?T = "Max {t \<in> set tms. t \<le> i}"
  have col: "column hist ''time_id'' = tms" by (rule column_single [OF tc])
  have r: "retrieve hist i = Inr (rows_at hist ?T)"
    by (rule retrieve_ok(1) [OF tc srt zero i])
  have ec': "filter (\<lambda>nv. fst nv = element) (columns (rows_at hist ?T)) =
             [(element, keep (map (\<lambda>x. x = ?T) tms) ids)]"
    by (simp add: rows_at_def filter_select_rows ec col)
  have sub': "set cols \<subseteq> set (column_names (rows_at hist ?T))"
    using sub by (simp add: rows_at_def column_names_select_rows)
  show "retrieve_element h i element hist =
           Inr (snapshot_at hist element cols (Max {t \<in> set (column hist ''time_id''). t \<le> i}))"
    unfolding col
    by (simp add: retrieve_element_def cols r bind_err_def [of "Inr x" for x]
        view_ok [OF ec' sub' notin] snapshot_at_def)
  show "{t \<in> set (column hist ''time_id''). t \<le> i} \<noteq> {}"
    unfolding col by (rule retrieve_ok(2) [OF tc srt zero i])
qed

lemma retrieve_loop_ok:
  assumes "\<forall>(element, hist) \<in> set ds.
             \<exists>cols. map_of (hist_columns h) element = Some cols \<and>
                    table_ok now element cols hist"
    and i: "0 \<le> i"
  shows "retrieve_loop h i ds =
           Inr (map (\<lambda>(element, hist).
                  (element, snapshot_at hist element (recorded_columns h element)
                     (Max {t \<in> set (column hist ''time_id''). t \<le> i}))) ds)"
  using assms(1)
proof (induction ds)
  case Nil
  then show ?case by simp
next
  case (Cons p ds)
  obtain element hist where p: "p = (element, hist)" by (cases p)
  from Cons.prems p obtain cols where
      c: "map_of (hist_columns h) element = Some cols"
    and ok: "table_ok now element cols hist" by auto
  from Cons have IH: "retrieve_loop h i ds =
           Inr (map (\<lambda>(element, hist).
                  (element, snapshot_at hist element (recorded_columns h element)
                     (Max {t \<in> set (column hist ''time_id''). t \<le> i}))) ds)" by simp
  show ?case
    by (simp add: p retrieve_element_ok(1) [OF ok c i] IH bind_err_def recorded_columns_def c)
qed

lemma set_update_subset: "set (AList.update k v al) \<subseteq> insert (k, v) (set al)"
  by (induction al) auto

lemma table_ok_mono: "table_ok now element cols hist \<Longrightarrow> now \<le> now' \<Longrightarrow> table_ok now' element cols hist"
  unfolding table_ok_def by (meson le_trans of_nat_le_iff order_trans)

lemma filter_zip_names:
  "map fst A = map fst B \<Longrightarrow>
   filter (\<lambda>nv. fst nv = c) (map (\<lambda>(na, nb). (fst na, snd na @ snd nb)) (zip A B)) =
   map (\<lambda>(na, nb). (fst na, snd na @ snd nb))
     (zip (filter (\<lambda>nv. fst nv = c) A) (filter (\<lambda>nv. fst nv = c) B))"
proof (induction A arbitrary: B)
  case Nil
  then show ?case by simp
next
  case (Cons a A)
  then obtain b B' where B: "B = b # B'" by (cases B) auto
  with Cons.prems have "fst a = fst b" "map fst A = map fst B'" by auto
  with Cons.IH [of B'] show ?case by (simp add: B)
qed

lemma names_zip:
  "map fst A = map fst B \<Longrightarrow>
   map fst (map (\<lambda>(na, nb). (fst na, snd na @ snd nb)) (zip A B)) = map fst A"
proof (induction A arbitrary: B)
  case Nil
  then show ?case by simp
next
  case (Cons a A)
  then obtain b B' where B: "B = b # B'" by (cases B) auto
  with Cons.prems have "map fst A = map fst B'" by auto
  with Cons.IH [of B'] show ?case by (simp add: B)
qed

lemma filter_single_other:
  assumes names: "map fst B = map fst A"
    and single: "filter (\<lambda>nv. fst nv = c) A = [(c, a)]"
    and mem: "(c, b) \<in> set B"
  shows "filter (\<lambda>nv. fst nv = c) B = [(c, b)]"
proof -
  have "map fst (filter (\<lambda>nv. fst nv = c) B) = filter (\<lambda>n. n = c) (map fst B)"
    by (simp add: filter_map o_def)
  also have "\<dots> = filter (\<lambda>n. n = c) (map fst A)" by (simp add: names)
  also have "\<dots> = map fst (filter (\<lambda>nv. fst nv = c) A)"
    by (simp add: filter_map o_def)
  finally have len: "length (filter (\<lambda>nv. fst nv = c) B) = 1"
    by (metis single length_map list.size(3,4) One_nat_def add.right_neutral add_Suc_right)
  then obtain x where x: "filter (\<lambda>nv. fst nv = c) B = [x]"
    by (cases "filter (\<lambda>nv. fst nv = c) B") auto
  from mem have "(c, b) \<in> set (filter (\<lambda>nv. fst nv = c) B)" by simp
  with x show ?thesis by simp
qed

lemma concat_rows_table_ok:
  assumes ok: "table_ok now element cols hist"
    and cat: "concat_rows hist df = Inr hist'"
    and tm: "(''time_id'', replicate n (real now)) \<in> set (columns df)"
    and el: "(element, ids') \<in> set (columns df)"
  shows "table_ok now element cols hist'"
proof -
  from ok obtain tms ids where
      tc: "filter (\<lambda>nv. fst nv = ''time_id'') (columns hist) = [(''time_id'', tms)]"
    and srt: "sorted tms" and zero: "0 \<in> set tms" and le: "\<forall>t \<in> set tms. t \<le> real now"
    and ec: "filter (\<lambda>nv. fst nv = element) (columns hist) = [(element, ids)]"
    and sub: "set cols \<subseteq> set (column_names hist)" and notin: "element \<notin> set cols"
    and tnotin: "''time_id'' \<notin> set cols"
    unfolding table_ok_def by blast
  from cat have names: "map fst (columns hist) = map fst (columns df)"
    and h': "columns hist' = map (\<lambda>(na, nb). (fst na, snd na @ snd nb)) (zip (columns hist) (columns df))"
    by (auto simp: concat_rows_def column_names_def split: if_splits)
  have tdf: "filter (\<lambda>nv. fst nv = ''time_id'') (columns df) = [(''time_id'', replicate n (real now))]"
    by (rule filter_single_other [OF names [symmetric] tc tm])
  have edf: "filter (\<lambda>nv. fst nv = element) (columns df) = [(element, ids')]"
    by (rule filter_single_other [OF names [symmetric] ec el])
  have t': "filter (\<lambda>nv. fst nv = ''time_id'') (columns hist') = [(''time_id'', tms @ replicate n (real now))]"
    by (simp add: h' filter_zip_names [OF names] tc tdf)
  have e': "filter (\<lambda>nv. fst nv = element) (columns hist') = [(element, ids @ ids')]"
    by (simp add: h' filter_zip_names [OF names] ec edf)
  have n': "column_names hist' = column_names hist"
    unfolding column_names_def h' by (rule names_zip [OF names])
  have s': "sorted (tms @ replicate n (real now))"
    using srt le by (simp add: sorted_append sorted_replicate)
  have z': "0 \<in> set (tms @ replicate n (real now))" using zero by simp
  have l': "\<forall>t \<in> set (tms @ replicate n (real now)). t \<le> real now"
    using le by auto
  have A: "\<exists>tms. filter (\<lambda>nv. fst nv = ''time_id'') (columns hist') = [(''time_id'', tms)] \<and>
        sorted tms \<and> 0 \<in> set tms \<and> (\<forall>t \<in> set tms. t \<le> real now)"
    using t' s' z' l' by (intro exI [of _ "tms @ replicate n (real now)"] conjI)
  have B: "\<exists>ids. filter (\<lambda>nv. fst nv = element) (columns hist') = [(element, ids)]"
    using e' by (intro exI [of _ "ids @ ids'"])
  from A B sub notin tnotin show ?thesis
    unfolding table_ok_def n' by (intro conjI)
qed


lemma record_element_ok:
  assumes ok: "history_ok h" and r: "record_element sheet h element = Inr h'"
  shows "history_ok h' \<and> time_id h' = time_id h \<and> hist_columns h' = hist_columns h"
proof -
  from r obtain hist cols where
      mh: "map_of (datasets h) element = Some hist"
    and mc: "map_of (hist_columns h) element = Some cols"
    by (auto simp: record_element_def split: option.splits)
  from mh have "(element, hist) \<in> set (datasets h)" by (rule map_of_SomeD)
  with ok mc have tok: "table_ok (time_id h) element cols hist"
    unfolding history_ok_def by fastforce
  then have tn: "''time_id'' \<notin> set cols" unfolding table_ok_def by blast
  from r mh mc obtain tbl sel df0 hist' where
      rs: "reset_index element sel = Inr df0"
    and cat: "concat_rows hist
               (df0\<lparr>columns := columns df0 @
                  [(''time_id'', replicate (length (index df0)) (1 * real (time_id h)))]\<rparr>) = Inr hist'"
    and h': "h' = h\<lparr>datasets := AList.update element hist' (datasets h)\<rparr>"
    using tn
    by (auto simp: record_element_def bind_err_def Let_def split: sum.splits)
  let ?df = "df0\<lparr>columns := columns df0 @
                  [(''time_id'', replicate (length (index df0)) (1 * real (time_id h)))]\<rparr>"
  from rs have "(element, index sel) \<in> set (columns df0)"
    by (auto simp: reset_index_def split: if_splits)
  then have el: "(element, index sel) \<in> set (columns ?df)" by simp
  have tm: "(''time_id'', replicate (length (index df0)) (real (time_id h))) \<in> set (columns ?df)"
    by simp
  have tok': "table_ok (time_id h) element cols hist'"
    by (rule concat_rows_table_ok [OF tok cat tm el])
  have "history_ok h'"
    unfolding history_ok_def
  proof (clarify)
    fix e t assume "(e, t) \<in> set (datasets h')"
    then have "(e, t) = (element, hist') \<or> (e, t) \<in> set (datasets h)"
      using set_update_subset [of element hist' "datasets h"] by (auto simp: h')
    then show "\<exists>cols. map_of (hist_columns h') e = Some cols \<and> table_ok (time_id h') e cols t"
    proof
      assume "(e, t) = (element, hist')"
      then show ?thesis using mc tok' by (simp add: h')
    next
      assume "(e, t) \<in> set (datasets h)"
      with ok show ?thesis unfolding history_ok_def by (fastforce simp: h')
    qed
  qed
  then show ?thesis by (simp add: h')
qed

lemma record_loop_ok:
  "history_ok h \<Longrightarrow>
   history_ok (fst (record_loop sheet h to_record)) \<and>
   hist_columns (fst (record_loop sheet h to_record)) = hist_columns h"
proof (induction to_record arbitrary: h)
  case Nil
  then show ?case by simp
next
  case (Cons element rest)
  show ?case
  proof (cases "record_element sheet h element")
    case (Inl e)
    with Cons.prems show ?thesis by simp
  next
    case (Inr h')
    from record_element_ok [OF Cons.prems Inr] Cons.IH [of h'] Inr
    show ?thesis by simp
  qed
qed

lemma History_record_ok:
  assumes "history_ok h"
  shows "history_ok (fst (History_record sheet h to_record time_stamp)) \<and>
         hist_columns (fst (History_record sheet h to_record time_stamp)) = hist_columns h"
proof -
  have 1: "history_ok (h\<lparr>time_id := time_id h + 1\<rparr>)"
    unfolding history_ok_def
  proof (clarify)
    fix e t assume "(e, t) \<in> set (datasets (h\<lparr>time_id := time_id h + 1\<rparr>))"
    then have "(e, t) \<in> set (datasets h)" by simp
    with assms obtain cols where c: "map_of (hist_columns h) e = Some cols"
      and t: "table_ok (time_id h) e cols t"
      unfolding history_ok_def by fastforce
    from table_ok_mono [OF t, of "time_id h + 1"] c
    show "\<exists>cols. map_of (hist_columns (h\<lparr>time_id := time_id h + 1\<rparr>)) e = Some cols \<and>
            table_ok (time_id (h\<lparr>time_id := time_id h + 1\<rparr>)) e cols t"
      by simp
  qed
  have ok_ti: "\<And>g f. history_ok g \<Longrightarrow> history_ok (g\<lparr>time_index := f\<rparr>)"
    unfolding history_ok_def by simp
  have ok_ts: "\<And>g f. history_ok g \<Longrightarrow> history_ok (g\<lparr>time_stamps := f\<rparr>)"
    unfolding history_ok_def by simp
  show ?thesis
  proof (cases time_stamp)
    case None
    from record_loop_ok [OF ok_ti [OF 1]] show ?thesis
      by (simp add: History_record_def Let_def None)
  next
    case (Some ts)
    from record_loop_ok [OF ok_ts [OF ok_ti [OF 1]]] show ?thesis
      by (simp add: History_record_def Let_def Some)
  qed
qed

lemma History_run_ok:
  "history_ok h \<Longrightarrow> history_ok (History_run h calls) \<and>
     hist_columns (History_run h calls) = hist_columns h"
proof (induction calls arbitrary: h)
  case Nil
  then show ?case by (simp add: History_run_def)
next
  case (Cons c calls)
  obtain sheet to_record ts where c: "c = (sheet, to_record, ts)" by (cases c)
  let ?h = "fst (History_record sheet h to_record ts)"
  from History_record_ok [OF Cons.prems] have "history_ok ?h" "hist_columns ?h = hist_columns h"
    by auto
  with Cons.IH [of ?h] show ?case by (simp add: History_run_def c)
qed

lemma filter_absent: "c \<notin> fst ` set xs \<Longrightarrow> filter (\<lambda>nv. fst nv = c) xs = []"
  by (induction xs) auto

lemma snapshot0_table_ok:
  assumes s: "snapshot0 cols df name element = Inr (fcols, tbl, ws)"
    and tn: "''time_id'' \<notin> set fcols" and ne: "index tbl \<noteq> []"
    and et: "element \<noteq> ''time_id''"
  shows "table_ok 0 element fcols tbl"
proof -
  from s tn obtain sel h0 where
      sc: "select_columns df fcols = Inr sel"
    and rs: "reset_index element sel = Inr h0"
    and tbl: "tbl = assign_const h0 ''time_id'' 0"
    by (auto simp: snapshot0_def bind_err_def split_beta split: sum.splits if_splits)
  from sc have sub: "set fcols \<subseteq> set (column_names df)"
    by (auto simp: select_columns_def filter_empty_conv split: list.splits)
  from sc select_columns_Inr [OF sub]
  have sel: "sel = df\<lparr>columns := concat (map (\<lambda>c. filter (\<lambda>nv. fst nv = c) (columns df)) fcols)\<rparr>"
    by simp
  have names: "set (column_names sel) = set fcols"
    using names_concat_filter [of fcols "columns df"] sub
    by (simp add: sel column_names_def)
  from rs have enot: "element \<notin> set (column_names sel)"
    and h0: "h0 = \<lparr>index = map real [0..<length (index sel)],
                  columns = (element, index sel) # columns sel\<rparr>"
    by (auto simp: reset_index_def split: if_splits)
  have tnot: "''time_id'' \<notin> set (column_names sel)" using tn names by simp
  then have "''time_id'' \<notin> set (column_names h0)"
    using et by (simp add: h0 column_names_def)
  then have cols: "columns tbl = (element, index sel) # columns sel @
                     [(''time_id'', replicate (length (index h0)) 0)]"
    and idx: "index tbl = index h0"
    by (simp_all add: tbl assign_const_def Let_def h0)
  from ne idx have pos: "0 < length (index h0)" by simp
  have fs: "filter (\<lambda>nv. fst nv = ''time_id'') (columns sel) = []"
    using tnot by (intro filter_absent) (simp add: column_names_def)
  have fe: "filter (\<lambda>nv. fst nv = element) (columns sel) = []"
    using enot by (intro filter_absent) (simp add: column_names_def)
  have t: "filter (\<lambda>nv. fst nv = ''time_id'') (columns tbl) =
             [(''time_id'', replicate (length (index h0)) 0)]"
    using et by (simp add: cols fs)
  have e: "filter (\<lambda>nv. fst nv = element) (columns tbl) = [(element, index sel)]"
    using et by (simp add: cols fe)
  have A: "\<exists>tms. filter (\<lambda>nv. fst nv = ''time_id'') (columns tbl) = [(''time_id'', tms)] \<and>
        sorted tms \<and> 0 \<in> set tms \<and> (\<forall>t \<in> set tms. t \<le> real 0)"
    using t pos
    by (intro exI [of _ "replicate (length (index h0)) 0"]) (simp add: sorted_replicate)
  have B: "\<exists>ids. filter (\<lambda>nv. fst nv = element) (columns tbl) = [(element, ids)]"
    using e by (intro exI [of _ "index sel"])
  have C: "set fcols \<subseteq> set (column_names tbl)"
    using names by (auto simp: column_names_def cols)
  have D: "element \<notin> set fcols" using enot names by simp
  from A B C D tn show ?thesis unfolding table_ok_def by (intro conjI)
qed


lemma History_init_ok:
  assumes init: "History_init sheet extra_cols = Inr (h0, ws)"
    and tn: "\<forall>(element, cols) \<in> set (hist_columns h0). ''time_id'' \<notin> set cols"
    and ne: "\<forall>(element, hist) \<in> set (datasets h0). index hist \<noteq> []"
  shows "history_ok h0"
proof -
  let ?sv = "snapshot0 (coords sheet @ extra extra_cols ''vert'') (vert_data sheet) ''vertex'' ''vert''"
  let ?sf = "snapshot0 (extra extra_cols ''face'') (face_data sheet) ''face'' ''face''"
  from init obtain vcols vert_h wv where v: "?sv = Inr (vcols, vert_h, wv)"
    by (cases ?sv) (auto simp: History_init_def bind_err_def)
  from init v obtain fcols face_h wf where f: "?sf = Inr (fcols, face_h, wf)"
    by (cases ?sf) (auto simp: History_init_def bind_err_def)
  show ?thesis
  proof (cases "cell_data sheet")
    case None
    let ?se = "snapshot0 (''srce'' # ''trgt'' # ''face'' # extra extra_cols ''edge'')
                 (edge_data sheet) ''edge'' ''edge''"
    from init v f None obtain ecols edge_h we where e: "?se = Inr (ecols, edge_h, we)"
      by (cases ?se) (auto simp: History_init_def bind_err_def)
    from init have ds: "datasets h0 = [(''vert'', vert_h), (''face'', face_h), (''edge'', edge_h)]"
      and cs: "hist_columns h0 = [(''vert'', vcols), (''face'', fcols), (''edge'', ecols)]"
      and t0: "time_id h0 = 0"
      by (auto simp: History_init_def bind_err_def v f e None)
    have "table_ok 0 ''vert'' vcols vert_h"
      using tn ne by (intro snapshot0_table_ok [OF v]) (simp_all add: ds cs)
    moreover have "table_ok 0 ''face'' fcols face_h"
      using tn ne by (intro snapshot0_table_ok [OF f]) (simp_all add: ds cs)
    moreover have "table_ok 0 ''edge'' ecols edge_h"
      using tn ne by (intro snapshot0_table_ok [OF e]) (simp_all add: ds cs)
    ultimately show ?thesis
      unfolding history_ok_def by (simp add: ds cs t0)
  next
    case (Some cell_df)
    let ?sc = "snapshot0 (extra extra_cols ''cell'') cell_df ''cell'' ''cell''"
    let ?se = "snapshot0 (''srce'' # ''trgt'' # ''face'' # extra extra_cols ''edge'' @ [''cell''])
                 (edge_data sheet) ''edge'' ''edge''"
    from init v f Some obtain ccols cell_h wc where c: "?sc = Inr (ccols, cell_h, wc)"
      by (cases ?sc) (auto simp: History_init_def bind_err_def)
    from init v f c Some obtain ecols edge_h we where e: "?se = Inr (ecols, edge_h, we)"
      by (cases ?se) (auto simp: History_init_def bind_err_def)
    from init have ds: "datasets h0 =
          [(''vert'', vert_h), (''face'', face_h), (''cell'', cell_h), (''edge'', edge_h)]"
      and cs: "hist_columns h0 =
          [(''vert'', vcols), (''face'', fcols), (''cell'', ccols), (''edge'', ecols)]"
      and t0: "time_id h0 = 0"
      by (auto simp: History_init_def bind_err_def v f c e Some)
    have "table_ok 0 ''vert'' vcols vert_h"
      using tn ne by (intro snapshot0_table_ok [OF v]) (simp_all add: ds cs)
    moreover have "table_ok 0 ''face'' fcols face_h"
      using tn ne by (intro snapshot0_table_ok [OF f]) (simp_all add: ds cs)
    moreover have "table_ok 0 ''cell'' ccols cell_h"
      using tn ne by (intro snapshot0_table_ok [OF c]) (simp_all add: ds cs)
    moreover have "table_ok 0 ''edge'' ecols edge_h"
      using tn ne by (intro snapshot0_table_ok [OF e]) (simp_all add: ds cs)
    ultimately show ?thesis
      unfolding history_ok_def by (simp add: ds cs t0)
  qed
qed

text \<open>
  Claim C10, amended.  Take a history built by \<open>History.__init__\<close> from a sheet whose
  recorded tables have at least one row each, with \<open>time_id\<close> not among the recorded
  columns, and then any sequence of \<open>record\<close> calls.  For every index \<open>i \<ge> 0\<close>,
  \<open>retrieve(i)\<close> returns, for each recorded table, exactly the rows whose \<open>time_id\<close> is the
  greatest recorded \<open>time_id\<close> that is at most \<open>i\<close> (indexed by element id, recorded columns
  only), and such a record exists.
\<close>

theorem History_retrieve_closest:
  assumes init: "History_init sheet extra_cols = Inr (h0, ws)"
    and tn: "\<forall>(element, cols) \<in> set (hist_columns h0). ''time_id'' \<notin> set cols"
    and ne: "\<forall>(element, hist) \<in> set (datasets h0). index hist \<noteq> []"
    and i: "0 \<le> i"
  shows "History_retrieve (History_run h0 calls) i =
           Inr (map (\<lambda>(element, hist).
                  (element,
                   snapshot_at hist element (recorded_columns (History_run h0 calls) element)
                     (Max {t \<in> set (column hist ''time_id''). t \<le> i})))
                (datasets (History_run h0 calls))) \<and>
         (\<forall>(element, hist) \<in> set (datasets (History_run h0 calls)).
            {t \<in> set (column hist ''time_id''). t \<le> i} \<noteq> {})"
proof -
  let ?h = "History_run h0 calls"
  have ok0: "history_ok h0" by (rule History_init_ok [OF init tn ne])
  from History_run_ok [OF ok0] have ok: "history_ok ?h" by simp
  then have all: "\<forall>(element, hist) \<in> set (datasets ?h).
             \<exists>cols. map_of (hist_columns ?h) element = Some cols \<and>
                    table_ok (time_id ?h) element cols hist"
    unfolding history_ok_def .
  have 1: "History_retrieve ?h i =
           Inr (map (\<lambda>(element, hist).
                  (element,
                   snapshot_at hist element (recorded_columns ?h element)
                     (Max {t \<in> set (column hist ''time_id''). t \<le> i})))
                (datasets ?h))"
    unfolding History_retrieve_def by (rule retrieve_loop_ok [OF all i])
  have 2: "\<forall>(element, hist) \<in> set (datasets ?h).
            {t \<in> set (column hist ''time_id''). t \<le> i} \<noteq> {}"
  proof (clarify)
    fix element hist
    assume m: "(element, hist) \<in> set (datasets ?h)"
      and emp: "{t \<in> set (column hist ''time_id''). t \<le> i} = {}"
    from all m obtain cols where c: "map_of (hist_columns ?h) element = Some cols"
      and t: "table_ok (time_id ?h) element cols hist" by fastforce
    from retrieve_element_ok(2) [OF t c i] emp show False by simp
  qed
  from 1 2 show ?thesis by (rule conjI)
qed

lemma ex_init: "History_init ex_sheet ex_extra = Inr (ex_history, [ColumnsNotSaved {''y''} ''vertex''])"
  by code_simp

lemma ex_empty_init: "History_init ex_empty_sheet None = Inr (ex_empty_history, [])"
  by code_simp

lemma ex_empty_retrieve: "History_retrieve ex_empty_history 0 = Inl IndexError"
  by code_simp

lemma ex_retrieve: "History_retrieve (History_run ex_history ex_calls) 1 =
  Inr [(''vert'', \<lparr>index = [0, 1, 2], columns = [(''x'', [5, 6, 7])]\<rparr>),
      (''face'', \<lparr>index = [0], columns = [(''area'', [2])]\<rparr>),
      (''edge'',
       \<lparr>index = [0, 1],
          columns =
            [(''srce'', [0, 1]), (''trgt'', [1, 0]), (''face'', [0, 0])]\<rparr>)]"
  by code_simp


theorem History_retrieve_closest_witness:
  "History_retrieve (History_run ex_history ex_calls) 1 =
     Inr (map (\<lambda>(element, hist).
            (element,
             snapshot_at hist element (recorded_columns (History_run ex_history ex_calls) element)
               (Max {t \<in> set (column hist ''time_id''). t \<le> 1})))
          (datasets (History_run ex_history ex_calls))) \<and>
   History_retrieve (History_run ex_history ex_calls) 1 =
     Inr [(''vert'', \<lparr>index = [0, 1, 2], columns = [(''x'', [5, 6, 7])]\<rparr>),
          (''face'', \<lparr>index = [0], columns = [(''area'', [2])]\<rparr>),
          (''edge'', \<lparr>index = [0, 1],
             columns = [(''srce'', [0, 1]), (''trgt'', [1, 0]), (''face'', [0, 0])]\<rparr>)]"
proof -
  have tn: "\<forall>(element, cols) \<in> set (hist_columns ex_history). ''time_id'' \<notin> set cols"
    by (simp add: ex_history_def)
  have ne: "\<forall>(element, hist) \<in> set (datasets ex_history). index hist \<noteq> []"
    by (simp add: ex_history_def)
  have i: "(0::real) \<le> 1" by simp
  from History_retrieve_closest [OF ex_init tn ne i, of ex_calls] ex_retrieve
  show ?thesis by (intro conjI) (elim conjE, assumption)+
qed

text \<open>
  Claim C10 as stated fails: the history of a sheet without rows has no record at
  \<open>time_id\<close> 0, and \<open>retrieve(0)\<close> raises IndexError.
\<close>

theorem History_retrieve_empty_counterexample:
  "History_init ex_empty_sheet None = Inr (ex_empty_history, []) \<and>
   History_retrieve ex_empty_history 0 = Inl IndexError"
  using ex_empty_init ex_empty_retrieve by (rule conjI)


section \<open>Properties of sheet_vertex_model.py: energy and gradient\<close>

lemma keep_map: "keep (map p xs) xs = filter p xs"
  by (induction xs) (auto simp: keep_def)

lemma upcast_face_ok:
  "\<forall>e \<in> set (edge_df sheet). face e < length col \<Longrightarrow>
   upcast_face sheet col = Inr (map (\<lambda>e. col ! face e) (edge_df sheet))"
  by (simp add: upcast_face_def upcast_def)

lemma upcast_srce_ok:
  "\<forall>e \<in> set (edge_df sheet). srce e < length col \<Longrightarrow>
   upcast_srce sheet col = Inr (map (\<lambda>e. col ! srce e) (edge_df sheet))"
  by (simp add: upcast_srce_def upcast_def)

lemma live_edges:
  assumes "references_ok sheet"
  shows "keep (map ((\<lambda>a. a = 1) \<circ> (\<lambda>e. map is_alive (face_df sheet) ! face e)) (edge_df sheet))
           (edge_df sheet) = filter (live sheet) (edge_df sheet)"
proof -
  have "map ((\<lambda>a. a = 1) \<circ> (\<lambda>e. map is_alive (face_df sheet) ! face e)) (edge_df sheet) =
        map (live sheet) (edge_df sheet)"
    using assms by (auto simp: references_ok_def live_def)
  then show ?thesis by (simp only: keep_map)
qed

lemma energies_ok:
  assumes refs: "references_ok sheet"
    and anchors: "''is_anchor'' \<in> set (edge_columns sheet) \<longrightarrow>
                  ''anchor_elasticity'' \<in> set (edge_columns sheet)"
    and nrj: "setting sheet ''nrj_norm_factor'' = Inr n" and n: "n \<noteq> 0"
  obtains energies where
    "compute_energy sheet True = Inr (Sequence (map (\<lambda>E. Series (map (\<lambda>x. x / n) E)) energies))"
    "compute_energy sheet False = Inr (Scalar (sum_list (map sum_list energies) / n))"
    "map sum_list energies = energy_terms sheet"
proof -
  let ?live_faces = "filter (\<lambda>f. is_alive f = 1) (face_df sheet)"
  let ?E3 = "[map (\<lambda>e. line_tension e * edge_length e / 2) (filter (live sheet) (edge_df sheet)),
             elastic_energy ?live_faces vol vol_elasticity prefered_vol,
             map (\<lambda>f. 0.5 * contractility f * perimeter f ^ 2) ?live_faces]"
  let ?Ea = "map (\<lambda>e. anchor_elasticity e * edge_length e ^ 2 * is_anchor e / 2) (edge_df sheet)"
  let ?E = "?E3 @ (if ''is_anchor'' \<in> set (edge_columns sheet) then [?Ea] else [])"
  have up: "upcast_face sheet (map is_alive (face_df sheet)) =
            Inr (map (\<lambda>e. map is_alive (face_df sheet) ! face e) (edge_df sheet))"
    using refs by (intro upcast_face_ok) (simp add: references_ok_def)
  have t: "sum_list (map (\<lambda>e. line_tension e * edge_length e / 2) (filter (live sheet) (edge_df sheet)))
           = tension_energy sheet"
    by (simp add: tension_energy_def sum_list_map_filter' cong: if_cong)
  have v: "sum_list (elastic_energy ?live_faces vol vol_elasticity prefered_vol) = volume_energy sheet"
    by (simp add: volume_energy_def elastic_energy_def sum_list_map_filter' cong: if_cong)
  have c: "sum_list (map (\<lambda>f. 0.5 * contractility f * perimeter f ^ 2) ?live_faces)
           = contractile_energy sheet"
    by (simp add: contractile_energy_def sum_list_map_filter' cong: if_cong)
  have a: "sum_list ?Ea = anchor_energy_sum sheet"
    by (simp add: anchor_energy_sum_def algebra_simps)
  show ?thesis
  proof (rule that [of ?E])
    show "compute_energy sheet True = Inr (Sequence (map (\<lambda>E. Series (map (\<lambda>x. x / n) E)) ?E))"
      using anchors n
      by (simp add: compute_energy_def Let_def up bind_err_def live_edges [OF refs] nrj
          anchor_energy_def)
    show "compute_energy sheet False = Inr (Scalar (sum_list (map sum_list ?E) / n))"
      using anchors n
      by (simp add: compute_energy_def Let_def up bind_err_def live_edges [OF refs] nrj
          anchor_energy_def)
    show "map sum_list ?E = energy_terms sheet"
      by (cases "''is_anchor'' \<in> set (edge_columns sheet)")
        (simp_all only: energy_terms_def if_True if_False list.map map_append t v c a)
  qed
qed


text \<open>
  Claim C3.  For a sheet whose half-edges refer to existing rows, with a non-zero
  \<open>nrj_norm_factor\<close> setting (and an \<open>anchor_elasticity\<close> column when there is an
  \<open>is_anchor\<close> column), \<open>compute_energy\<close> in default mode returns the scalar: tension
  summed over the half-edges of live faces, plus volume elasticity and contractility
  summed over the live faces, plus, only when the edge table has the anchor columns, the
  anchor term summed over all half-edges, the total divided by \<open>nrj_norm_factor\<close>.  Dead
  faces and their half-edges add 0 to the first three terms.
\<close>

theorem compute_energy_total:
  assumes refs: "references_ok sheet"
    and anchors: "''is_anchor'' \<in> set (edge_columns sheet) \<longrightarrow>
                  ''anchor_elasticity'' \<in> set (edge_columns sheet)"
    and nrj: "setting sheet ''nrj_norm_factor'' = Inr n" and n: "n \<noteq> 0"
  shows "compute_energy sheet False =
           Inr (Scalar
             (((\<Sum>e\<leftarrow>edge_df sheet. if live sheet e then line_tension e * edge_length e / 2 else 0) +
               (\<Sum>f\<leftarrow>face_df sheet.
                  if is_alive f = 1 then 0.5 * vol_elasticity f * (vol f - prefered_vol f) ^ 2 else 0) +
               (\<Sum>f\<leftarrow>face_df sheet.
                  if is_alive f = 1 then 0.5 * contractility f * perimeter f ^ 2 else 0) +
               (if ''is_anchor'' \<in> set (edge_columns sheet)
                then \<Sum>e\<leftarrow>edge_df sheet. 0.5 * anchor_elasticity e * edge_length e ^ 2 * is_anchor e
                else 0)) / n))"
proof -
  from energies_ok [OF refs anchors nrj n] obtain energies where
      e: "compute_energy sheet False = Inr (Scalar (sum_list (map sum_list energies) / n))"
    and t: "map sum_list energies = energy_terms sheet"
    by blast
  have "sum_list (energy_terms sheet) =
          tension_energy sheet + volume_energy sheet + contractile_energy sheet +
          (if ''is_anchor'' \<in> set (edge_columns sheet) then anchor_energy_sum sheet else 0)"
    by (simp add: energy_terms_def)
  then show ?thesis
    unfolding e t tension_energy_def volume_energy_def contractile_energy_def anchor_energy_sum_def
    by (simp only:)
qed

lemma ex_mesh_refs: "references_ok ex_mesh"
  by (simp add: references_ok_def ex_mesh_def)

lemma ex_mesh_nrj: "setting ex_mesh ''nrj_norm_factor'' = Inr 4"
  by (simp add: setting_def ex_mesh_def)

lemma ex_mesh_anchors:
  "''is_anchor'' \<in> set (edge_columns ex_mesh) \<longrightarrow> ''anchor_elasticity'' \<in> set (edge_columns ex_mesh)"
  by (simp add: ex_mesh_def)

lemma ex_mesh_energy: "compute_energy ex_mesh False = Inr (Scalar (39 / 4))"
  by code_simp




theorem compute_energy_total_witness:
  "compute_energy ex_mesh False =
     Inr (Scalar
       (((\<Sum>e\<leftarrow>edge_df ex_mesh. if live ex_mesh e then line_tension e * edge_length e / 2 else 0) +
         (\<Sum>f\<leftarrow>face_df ex_mesh.
            if is_alive f = 1 then 0.5 * vol_elasticity f * (vol f - prefered_vol f) ^ 2 else 0) +
         (\<Sum>f\<leftarrow>face_df ex_mesh.
            if is_alive f = 1 then 0.5 * contractility f * perimeter f ^ 2 else 0) +
         (if ''is_anchor'' \<in> set (edge_columns ex_mesh)
          then \<Sum>e\<leftarrow>edge_df ex_mesh. 0.5 * anchor_elasticity e * edge_length e ^ 2 * is_anchor e
          else 0)) / 4)) \<and>
   compute_energy ex_mesh False = Inr (Scalar (39 / 4))"
proof
  have "(4::real) \<noteq> 0" by simp
  from compute_energy_total [OF ex_mesh_refs ex_mesh_anchors ex_mesh_nrj this]
  show "compute_energy ex_mesh False =
     Inr (Scalar
       (((\<Sum>e\<leftarrow>edge_df ex_mesh. if live ex_mesh e then line_tension e * edge_length e / 2 else 0) +
         (\<Sum>f\<leftarrow>face_df ex_mesh.
            if is_alive f = 1 then 0.5 * vol_elasticity f * (vol f - prefered_vol f) ^ 2 else 0) +
         (\<Sum>f\<leftarrow>face_df ex_mesh.
            if is_alive f = 1 then 0.5 * contractility f * perimeter f ^ 2 else 0) +
         (if ''is_anchor'' \<in> set (edge_columns ex_mesh)
          then \<Sum>e\<leftarrow>edge_df ex_mesh. 0.5 * anchor_elasticity e * edge_length e ^ 2 * is_anchor e
          else 0)) / 4))" .
  show "compute_energy ex_mesh False = Inr (Scalar (39 / 4))" by (rule ex_mesh_energy)
qed




lemma length_sum_over: "length (sum_over ref sheet g) = length (vert_df sheet)"
  by (simp add: sum_over_def)

lemma nth_sum_over:
  "i < length (vert_df sheet) \<Longrightarrow> sum_over ref sheet g ! i = sum_at ref sheet g i"
  by (simp add: sum_over_def)

lemma length_grad_i:
  "length (grad_i sheet grad_t grad_c grad_v_srce grad_v_trgt grad_a) = length (vert_df sheet)"
  by (cases grad_a) (simp_all add: grad_i_def sum_srce_def sum_trgt_def length_sum_over)

lemma nth_grad_i:
  assumes "i < length (vert_df sheet)"
  shows "grad_i sheet grad_t grad_c grad_v_srce grad_v_trgt grad_a ! i =
           (sum_at srce sheet grad_t i - sum_at trgt sheet grad_t i) /\<^sub>R 2 +
           sum_at srce sheet grad_c i - sum_at trgt sheet grad_c i +
           sum_at srce sheet grad_v_srce i + sum_at trgt sheet grad_v_trgt i +
           (case grad_a of None \<Rightarrow> 0 | Some ga \<Rightarrow> sum_at srce sheet ga i)"
  using assms
  by (cases grad_a)
    (simp_all add: grad_i_def sum_srce_def sum_trgt_def length_sum_over nth_sum_over)

lemma compute_gradient_default:
  assumes terms: "gradient_terms cls geom sheet =
                    Inr (grad_t, grad_c, grad_v_srce, grad_v_trgt, grad_a)"
    and nrj: "setting sheet ''nrj_norm_factor'' = Inr n" and n: "n \<noteq> 0"
  shows "compute_gradient cls geom sheet False =
           Inr (Array (map (\<lambda>v. v /\<^sub>R n)
                  (map2 (*) (grad_i sheet grad_t grad_c grad_v_srce grad_v_trgt grad_a)
                     (to_3d (map is_active (vert_df sheet))))))"
  using n by (simp add: compute_gradient_def bind_err_def terms nrj)

lemma nth_masked:
  assumes "i < length (vert_df sheet)" "length g = length (vert_df sheet)"
  shows "map (\<lambda>v. v /\<^sub>R n) (map2 (*) g (to_3d (map is_active (vert_df sheet)))) ! i =
           (g ! i * Vec (is_active (vert_df sheet ! i)) (is_active (vert_df sheet ! i))
                        (is_active (vert_df sheet ! i))) /\<^sub>R n"
  using assms by (simp add: to_3d_def)

lemma times_zero_vec: "v * Vec 0 0 0 = 0"
  by (cases v) (simp add: zero_vec_def)

text \<open>
  Claim C1, amended.  In default mode \<open>compute_gradient\<close> returns one row per vertex: the
  aggregated gradient of the vertex multiplied by its \<open>is_active\<close> value and divided by
  the \<open>nrj_norm_factor\<close> setting (not by \<open>grad_norm_factor\<close>); a vertex whose \<open>is_active\<close>
  is 0 gets the zero row.
\<close>

theorem compute_gradient_mask_and_norm:
  assumes terms: "gradient_terms cls geom sheet =
                    Inr (grad_t, grad_c, grad_v_srce, grad_v_trgt, grad_a)"
    and nrj: "setting sheet ''nrj_norm_factor'' = Inr n" and n: "n \<noteq> 0"
  shows "\<exists>G. compute_gradient cls geom sheet False = Inr (Array G) \<and>
              length G = length (vert_df sheet) \<and>
              (\<forall>i < length (vert_df sheet).
                 G ! i = (grad_i sheet grad_t grad_c grad_v_srce grad_v_trgt grad_a ! i *
                          Vec (is_active (vert_df sheet ! i)) (is_active (vert_df sheet ! i))
                              (is_active (vert_df sheet ! i))) /\<^sub>R n \<and>
                 (is_active (vert_df sheet ! i) = 0 \<longrightarrow> G ! i = 0))"
proof -
  let ?g = "grad_i sheet grad_t grad_c grad_v_srce grad_v_trgt grad_a"
  let ?G = "map (\<lambda>v. v /\<^sub>R n) (map2 (*) ?g (to_3d (map is_active (vert_df sheet))))"
  have 1: "compute_gradient cls geom sheet False = Inr (Array ?G)"
    by (rule compute_gradient_default [OF terms nrj n])
  have 2: "length ?G = length (vert_df sheet)"
    by (simp add: length_grad_i to_3d_def)
  have 3: "\<forall>i < length (vert_df sheet).
                 ?G ! i = (?g ! i *
                          Vec (is_active (vert_df sheet ! i)) (is_active (vert_df sheet ! i))
                              (is_active (vert_df sheet ! i))) /\<^sub>R n \<and>
                 (is_active (vert_df sheet ! i) = 0 \<longrightarrow> ?G ! i = 0)"
  proof (intro allI impI conjI)
    fix i assume i: "i < length (vert_df sheet)"
    show eq: "?G ! i = (?g ! i *
                          Vec (is_active (vert_df sheet ! i)) (is_active (vert_df sheet ! i))
                              (is_active (vert_df sheet ! i))) /\<^sub>R n"
      by (rule nth_masked [OF i length_grad_i])
    assume "is_active (vert_df sheet ! i) = 0"
    with eq show "?G ! i = 0" by (simp add: times_zero_vec)
  qed
  from 1 2 3 show ?thesis by blast
qed

text \<open>
  Claim C2, amended.  The row of vertex \<open>i\<close> in the default-mode gradient aggregates the
  terms as follows: tension as (sum over the half-edges of which \<open>i\<close> is the source minus
  sum over those of which it is the target) / 2; the contractile term as sum-as-source
  minus sum-as-target; the elastic source-side and target-side contributions summed onto
  the source and the target vertex respectively; the anchor term, when the edge table
  has the anchor columns, as sum-as-source only.
\<close>

theorem compute_gradient_aggregation:
  assumes terms: "gradient_terms cls geom sheet =
                    Inr (grad_t, grad_c, grad_v_srce, grad_v_trgt, grad_a)"
    and nrj: "setting sheet ''nrj_norm_factor'' = Inr n" and n: "n \<noteq> 0"
    and i: "i < length (vert_df sheet)"
  shows "\<exists>G. compute_gradient cls geom sheet False = Inr (Array G) \<and>
              G ! i =
                (((sum_at srce sheet grad_t i - sum_at trgt sheet grad_t i) /\<^sub>R 2 +
                  sum_at srce sheet grad_c i - sum_at trgt sheet grad_c i +
                  sum_at srce sheet grad_v_srce i + sum_at trgt sheet grad_v_trgt i +
                  (case grad_a of None \<Rightarrow> 0 | Some ga \<Rightarrow> sum_at srce sheet ga i)) *
                 Vec (is_active (vert_df sheet ! i)) (is_active (vert_df sheet ! i))
                     (is_active (vert_df sheet ! i))) /\<^sub>R n"
proof -
  let ?g = "grad_i sheet grad_t grad_c grad_v_srce grad_v_trgt grad_a"
  let ?G = "map (\<lambda>v. v /\<^sub>R n) (map2 (*) ?g (to_3d (map is_active (vert_df sheet))))"
  have 1: "compute_gradient cls geom sheet False = Inr (Array ?G)"
    by (rule compute_gradient_default [OF terms nrj n])
  have "?G ! i = (?g ! i *
                          Vec (is_active (vert_df sheet ! i)) (is_active (vert_df sheet ! i))
                              (is_active (vert_df sheet ! i))) /\<^sub>R n"
    by (rule nth_masked [OF i length_grad_i])
  then have 2: "?G ! i =
                (((sum_at srce sheet grad_t i - sum_at trgt sheet grad_t i) /\<^sub>R 2 +
                  sum_at srce sheet grad_c i - sum_at trgt sheet grad_c i +
                  sum_at srce sheet grad_v_srce i + sum_at trgt sheet grad_v_trgt i +
                  (case grad_a of None \<Rightarrow> 0 | Some ga \<Rightarrow> sum_at srce sheet ga i)) *
                 Vec (is_active (vert_df sheet ! i)) (is_active (vert_df sheet ! i))
                     (is_active (vert_df sheet ! i))) /\<^sub>R n"
    by (simp only: nth_grad_i [OF i])
  from 1 2 show ?thesis by blast
qed


lemma ex_terms:
  "gradient_terms ex_cls ex_geom ex_mesh =
     Inr ([Vec 3 0 0, Vec 4 4 0, Vec 2 4 0, Vec 7 21 0],
          [Vec 6 0 0, Vec 6 6 0, Vec 6 12 0, Vec 10 30 0],
          [Vec 4 12 4, Vec 8 12 8, Vec 4 16 4, Vec 0 0 0],
          [Vec 0 0 8, Vec 0 0 4, Vec 0 0 12, Vec 0 0 0],
          Some [Vec 0 0 0, Vec 0 0 0, Vec 6 12 0, Vec 0 0 0])"
  by code_simp

lemma ex_gradient:
  "compute_gradient ex_cls ex_geom ex_mesh False =
     Inr (Array [Vec (- (9 / 4)) (- (85 / 8)) 4, Vec (11 / 2) (121 / 8) 4, Vec 0 0 0])"
  by code_simp

lemma ex_stated_grad_norm:
  "stated_gradient ''grad_norm_factor'' grad_i ex_cls ex_geom ex_mesh =
     Inr (Array [Vec (- (9 / 2)) (- (85 / 4)) 8, Vec 11 (121 / 4) 8, Vec 0 0 0])"
  by code_simp

lemma ex_stated_aggregation:
  "stated_gradient ''nrj_norm_factor'' stated_aggregation ex_cls ex_geom ex_mesh =
     Inr (Array [Vec (29 / 4) (107 / 8) 4, Vec (17 / 2) (121 / 8) 4, Vec 0 0 0])"
  by code_simp

theorem compute_gradient_mask_and_norm_witness:
  "(\<exists>G. compute_gradient ex_cls ex_geom ex_mesh False = Inr (Array G) \<and>
        length G = length (vert_df ex_mesh) \<and>
        (\<forall>i < length (vert_df ex_mesh).
           G ! i = (grad_i ex_mesh
                      [Vec 3 0 0, Vec 4 4 0, Vec 2 4 0, Vec 7 21 0]
                      [Vec 6 0 0, Vec 6 6 0, Vec 6 12 0, Vec 10 30 0]
                      [Vec 4 12 4, Vec 8 12 8, Vec 4 16 4, Vec 0 0 0]
                      [Vec 0 0 8, Vec 0 0 4, Vec 0 0 12, Vec 0 0 0]
                      (Some [Vec 0 0 0, Vec 0 0 0, Vec 6 12 0, Vec 0 0 0]) ! i *
                    Vec (is_active (vert_df ex_mesh ! i)) (is_active (vert_df ex_mesh ! i))
                        (is_active (vert_df ex_mesh ! i))) /\<^sub>R 4 \<and>
           (is_active (vert_df ex_mesh ! i) = 0 \<longrightarrow> G ! i = 0))) \<and>
   compute_gradient ex_cls ex_geom ex_mesh False =
     Inr (Array [Vec (- (9 / 4)) (- (85 / 8)) 4, Vec (11 / 2) (121 / 8) 4, Vec 0 0 0])"
proof -
  have n: "(4::real) \<noteq> 0" by simp
  from compute_gradient_mask_and_norm [OF ex_terms ex_mesh_nrj n] ex_gradient
  show ?thesis by (rule conjI)
qed

text \<open>
  Claim C1 as stated fails: with \<open>grad_norm_factor = 2\<close> and \<open>nrj_norm_factor = 4\<close> the
  gradient is the masked aggregate divided by 4, not by 2.
\<close>

theorem compute_gradient_grad_norm_counterexample:
  "setting ex_mesh ''grad_norm_factor'' = Inr 2 \<and>
   setting ex_mesh ''nrj_norm_factor'' = Inr 4 \<and>
   compute_gradient ex_cls ex_geom ex_mesh False =
     Inr (Array [Vec (- (9 / 4)) (- (85 / 8)) 4, Vec (11 / 2) (121 / 8) 4, Vec 0 0 0]) \<and>
   stated_gradient ''grad_norm_factor'' grad_i ex_cls ex_geom ex_mesh =
     Inr (Array [Vec (- (9 / 2)) (- (85 / 4)) 8, Vec 11 (121 / 4) 8, Vec 0 0 0]) \<and>
   compute_gradient ex_cls ex_geom ex_mesh False \<noteq>
     stated_gradient ''grad_norm_factor'' grad_i ex_cls ex_geom ex_mesh"
proof -
  have "setting ex_mesh ''grad_norm_factor'' = Inr 2"
    by (simp add: setting_def ex_mesh_def)
  then show ?thesis
    by (simp add: ex_mesh_nrj ex_gradient ex_stated_grad_norm)
qed

theorem compute_gradient_aggregation_witness:
  "(\<exists>G. compute_gradient ex_cls ex_geom ex_mesh False = Inr (Array G) \<and>
        G ! 0 =
          (((sum_at srce ex_mesh [Vec 3 0 0, Vec 4 4 0, Vec 2 4 0, Vec 7 21 0] 0 -
             sum_at trgt ex_mesh [Vec 3 0 0, Vec 4 4 0, Vec 2 4 0, Vec 7 21 0] 0) /\<^sub>R 2 +
            sum_at srce ex_mesh [Vec 6 0 0, Vec 6 6 0, Vec 6 12 0, Vec 10 30 0] 0 -
            sum_at trgt ex_mesh [Vec 6 0 0, Vec 6 6 0, Vec 6 12 0, Vec 10 30 0] 0 +
            sum_at srce ex_mesh [Vec 4 12 4, Vec 8 12 8, Vec 4 16 4, Vec 0 0 0] 0 +
            sum_at trgt ex_mesh [Vec 0 0 8, Vec 0 0 4, Vec 0 0 12, Vec 0 0 0] 0 +
            (case Some [Vec 0 0 0, Vec 0 0 0, Vec 6 12 0, Vec 0 0 0] of
               None \<Rightarrow> 0 | Some ga \<Rightarrow> sum_at srce ex_mesh ga 0)) *
           Vec (is_active (vert_df ex_mesh ! 0)) (is_active (vert_df ex_mesh ! 0))
               (is_active (vert_df ex_mesh ! 0))) /\<^sub>R 4) \<and>
   compute_gradient ex_cls ex_geom ex_mesh False =
     Inr (Array [Vec (- (9 / 4)) (- (85 / 8)) 4, Vec (11 / 2) (121 / 8) 4, Vec 0 0 0])"
proof -
  have n: "(4::real) \<noteq> 0" by simp
  have i: "0 < length (vert_df ex_mesh)" by (simp add: ex_mesh_def)
  from compute_gradient_aggregation [OF ex_terms ex_mesh_nrj n i] ex_gradient
  show ?thesis by (rule conjI)
qed

text \<open>
  Claim C2 as stated fails: the code subtracts the contractile target sum and gives the
  anchor term to the source vertex only, so the gradient differs from the one that adds
  source and target sums of the two terms.
\<close>

theorem compute_gradient_aggregation_counterexample:
  "compute_gradient ex_cls ex_geom ex_mesh False =
     Inr (Array [Vec (- (9 / 4)) (- (85 / 8)) 4, Vec (11 / 2) (121 / 8) 4, Vec 0 0 0]) \<and>
   stated_gradient ''nrj_norm_factor'' stated_aggregation ex_cls ex_geom ex_mesh =
     Inr (Array [Vec (29 / 4) (107 / 8) 4, Vec (17 / 2) (121 / 8) 4, Vec 0 0 0]) \<and>
   compute_gradient ex_cls ex_geom ex_mesh False \<noteq>
     stated_gradient ''nrj_norm_factor'' stated_aggregation ex_cls ex_geom ex_mesh"
  by (simp add: ex_gradient ex_stated_aggregation)

end
